theory Spec2Isabelle
  imports Main "HOL-Library.Word"
begin

section \<open>Data model\<close>

text \<open>
  A hash (\<^verbatim>\<open>common.Hash\<close>) is 32 opaque bytes; the zero hash \<^verbatim>\<open>common.Hash{}\<close> is the
  word \<open>0\<close>. Go's \<^verbatim>\<open>*big.Int\<close> is \<open>int\<close>. Both \<^verbatim>\<open>uint64\<close> and \<^verbatim>\<open>int64\<close> are 64-bit
  words whose arithmetic wraps; a \<^verbatim>\<open>uint64\<close> is read with \<open>uint\<close>, an \<^verbatim>\<open>int64\<close> in two's
  complement with \<open>sint\<close>.
\<close>

type_synonym hash = "256 word"
type_synonym uint64 = "64 word"
type_synonym int64 = "64 word"

text \<open>
  Modelled from the spec: package \<^verbatim>\<open>core/types\<close> is not among the sources. A header
  carries the fields the two files read. \<^verbatim>\<open>Time\<close> is an unsigned 64-bit field: the
  sources convert it with \<^verbatim>\<open>int64(...)\<close> before subtracting. The hash of a header is
  kept as the field \<open>Hash\<close>, so that every result below holds for whatever hash
  function fills it.
\<close>

record Header =
  Hash :: hash
  ParentHash :: hash
  Number :: int
  Time :: uint64
  Difficulty :: int
  GasLimit :: int
  GasUsed :: int
  Nonce :: uint64

text \<open>
  A block is its header together with the uncles, the computed total difficulty
  \<^verbatim>\<open>Td\<close> and the transient flag \<^verbatim>\<open>queued\<close>; \<^verbatim>\<open>block.Header().Difficulty\<close> and
  \<^verbatim>\<open>block.Difficulty()\<close> are both \<open>Difficulty b\<close>.
\<close>

record Block = Header +
  Uncles :: "Header list"
  Td :: int
  queued :: bool

text \<open>
  The protocol parameters of package \<^verbatim>\<open>params\<close> are not among the sources either;
  they are taken as a parameter of the functions that read them.
\<close>

record Params =
  DifficultyBoundDivisor :: int
  DurationLimit :: int
  MinimumDifficulty :: int
  GasLimitBoundDivisor :: int
  MinGasLimit :: int
  GenesisGasLimit :: int

section \<open>Arithmetic of the chain manager\<close>

text \<open>
  \<^verbatim>\<open>big.Int.Div\<close> is Euclidean division and panics on a zero divisor; \<open>None\<close> is the
  panic.
\<close>

definition big_Div :: "int \<Rightarrow> int \<Rightarrow> int option" where
  "big_Div x y =
     (if y = 0 then None
      else if 0 < y then Some (x div y)
      else Some (- (x div (- y))))"

text \<open>The conversion \<^verbatim>\<open>int64(x)\<close> of a \<^verbatim>\<open>uint64\<close> keeps the 64 bits.\<close>

definition to_int64 :: "uint64 \<Rightarrow> int64" where
  "to_int64 x = x"

definition big_NewInt :: "int64 \<Rightarrow> int" where
  "big_NewInt x = sint x"

text \<open>Modelled from the spec: \<^verbatim>\<open>common.BigMax\<close> and \<^verbatim>\<open>common.BigMin\<close> are the larger and
  the smaller of two big integers.\<close>

definition BigMax :: "int \<Rightarrow> int \<Rightarrow> int" where
  "BigMax x y = (if x \<le> y then y else x)"

definition BigMin :: "int \<Rightarrow> int \<Rightarrow> int" where
  "BigMin x y = (if x \<ge> y then y else x)"

definition CalcDifficulty :: "Params \<Rightarrow> 'a Header_scheme \<Rightarrow> 'b Header_scheme \<Rightarrow> int option" where
  "CalcDifficulty p block parent =
     (case big_Div (Difficulty parent) (DifficultyBoundDivisor p) of
        None \<Rightarrow> None
      | Some adjust \<Rightarrow>
          (let diff =
                 (if big_NewInt (to_int64 (Time block) - to_int64 (Time parent)) < DurationLimit p
                  then Difficulty parent + adjust
                  else Difficulty parent - adjust)
           in if diff < MinimumDifficulty p then Some (MinimumDifficulty p) else Some diff))"

definition CalcTD :: "Block \<Rightarrow> Block option \<Rightarrow> int" where
  "CalcTD block parent =
     (case parent of
        None \<Rightarrow> Difficulty block
      | Some pa \<Rightarrow> Td pa + Difficulty block)"

definition CalcGasLimit :: "Params \<Rightarrow> Block \<Rightarrow> int option" where
  "CalcGasLimit p parent =
     (case big_Div (GasLimit parent) (GasLimitBoundDivisor p) of
        None \<Rightarrow> None
      | Some decay \<Rightarrow>
          (case big_Div (GasUsed parent * 3) 2 of
             None \<Rightarrow> None
           | Some c2 \<Rightarrow>
               (case big_Div c2 (GasLimitBoundDivisor p) of
                  None \<Rightarrow> None
                | Some contrib \<Rightarrow>
                    (let gl = BigMax (GasLimit parent - decay + contrib + 1) (MinGasLimit p)
                     in if gl < GenesisGasLimit p
                        then Some (BigMin (GenesisGasLimit p) (GasLimit parent + decay))
                        else Some gl))))"

subsection \<open>The rules as the specification words them\<close>

definition difficulty_rule :: "Params \<Rightarrow> 'a Header_scheme \<Rightarrow> 'b Header_scheme \<Rightarrow> int" where
  "difficulty_rule p B P =
     (let adjust = Difficulty P div DifficultyBoundDivisor p;
          diff = (if uint (Time B) - uint (Time P) < DurationLimit p
                  then Difficulty P + adjust else Difficulty P - adjust)
      in max diff (MinimumDifficulty p))"

definition gas_limit_rule :: "Params \<Rightarrow> Block \<Rightarrow> int" where
  "gas_limit_rule p P =
     (let decay = GasLimit P div GasLimitBoundDivisor p;
          contrib = (GasUsed P * 3 div 2) div GasLimitBoundDivisor p;
          gl = max (GasLimit P - decay + contrib + 1) (MinGasLimit p)
      in if gl < GenesisGasLimit p then min (GenesisGasLimit p) (GasLimit P + decay) else gl)"


section \<open>The chain manager\<close>

subsection \<open>Block cache\<close>

text \<open>
  Modelled from the spec: \<^verbatim>\<open>BlockCache\<close> is not among the sources. It is a
  fixed-capacity, insertion-ordered mapping from hash to block; \<^verbatim>\<open>Push\<close> evicts the
  oldest entry when the cache is at capacity.
\<close>

record BlockCache =
  capacity :: nat
  entries :: "(hash \<times> Block) list"

definition NewBlockCache :: "nat \<Rightarrow> BlockCache" where
  "NewBlockCache n = \<lparr>capacity = n, entries = []\<rparr>"

definition cache_Push :: "BlockCache \<Rightarrow> Block \<Rightarrow> BlockCache" where
  "cache_Push c b =
     c\<lparr>entries :=
         (if capacity c \<le> length (entries c) then tl (entries c) else entries c)
         @ [(Hash b, b)]\<rparr>"

definition cache_Has :: "BlockCache \<Rightarrow> hash \<Rightarrow> bool" where
  "cache_Has c h = (h \<in> set (map fst (entries c)))"

definition cache_Delete :: "BlockCache \<Rightarrow> hash \<Rightarrow> BlockCache" where
  "cache_Delete c h = c\<lparr>entries := filter (\<lambda>e. fst e \<noteq> h) (entries c)\<rparr>"

definition blockCacheLimit :: nat where "blockCacheLimit = 10000"
definition maxFutureBlocks :: nat where "maxFutureBlocks = 256"
definition maxTimeFutureBlocks :: int64 where "maxTimeFutureBlocks = 30"

subsection \<open>State\<close>

text \<open>
  The block database holds three key spaces with distinct prefixes, which are kept
  as three maps: \<^verbatim>\<open>"block-hash-" + hash\<close> to the encoded block, \<^verbatim>\<open>"block-num-" + bytes\<close>
  to a hash, and \<^verbatim>\<open>"LastBlock"\<close> to a hash. \<^verbatim>\<open>big.Int.Bytes\<close> is the big-endian form of
  the absolute value, so a number key is the natural number \<open>nat \<bar>n\<bar>\<close>. Encoding and
  decoding a block (the RLP codec, not among the sources) give the block back.
\<close>

record ChainManager =
  blockByHash :: "hash \<Rightarrow> Block option"
  blockNum :: "nat \<Rightarrow> hash option"
  LastBlock :: "hash option"
  genesisBlock :: Block
  td :: int
  currentBlock :: Block
  lastBlockHash :: hash
  cache :: BlockCache
  futureBlocks :: BlockCache

definition GetBlock :: "ChainManager \<Rightarrow> hash \<Rightarrow> Block option" where
  "GetBlock c h = blockByHash c h"

definition HasBlock :: "ChainManager \<Rightarrow> hash \<Rightarrow> bool" where
  "HasBlock c h = (blockByHash c h \<noteq> None)"





text \<open>The loop of \<^verbatim>\<open>GetAncestors\<close>.\<close>

fun GetAncestors :: "ChainManager \<Rightarrow> Block \<Rightarrow> nat \<Rightarrow> Block list" where
  "GetAncestors c block 0 = []"
| "GetAncestors c block (Suc n) =
     (case GetBlock c (ParentHash block) of
        None \<Rightarrow> []
      | Some pa \<Rightarrow> pa # GetAncestors c pa n)"

text \<open>\<^verbatim>\<open>CalcTotalDiff\<close>, the helper that adds the uncles' difficulties; \<open>None\<close> is its
  error for an unknown parent.\<close>

definition CalcTotalDiff :: "ChainManager \<Rightarrow> Block \<Rightarrow> int option" where
  "CalcTotalDiff c block =
     (case GetBlock c (ParentHash block) of
        None \<Rightarrow> None
      | Some pa \<Rightarrow> Some (Td pa + sum_list (map Difficulty (Uncles block)) + Difficulty block))"

definition setTotalDifficulty :: "ChainManager \<Rightarrow> int \<Rightarrow> ChainManager" where
  "setTotalDifficulty c t = c\<lparr>td := t\<rparr>"

definition cm_insert :: "ChainManager \<Rightarrow> Block \<Rightarrow> ChainManager" where
  "cm_insert c block =
     c\<lparr>blockNum := (blockNum c)(nat \<bar>Number block\<bar> \<mapsto> Hash block),
       LastBlock := Some (Hash block),
       currentBlock := block,
       lastBlockHash := Hash block\<rparr>"

definition cm_write :: "ChainManager \<Rightarrow> Block \<Rightarrow> ChainManager" where
  "cm_write c block =
     c\<lparr>blockByHash := (blockByHash c)(Hash block \<mapsto> block),
       cache := cache_Push (cache c) block\<rparr>"

definition removeBlock :: "ChainManager \<Rightarrow> Block \<Rightarrow> ChainManager" where
  "removeBlock c block = c\<lparr>blockByHash := (blockByHash c)(Hash block := None)\<rparr>"

subsection \<open>Fork reorganisation\<close>

text \<open>Modelled from the spec: \<^verbatim>\<open>NumberU64\<close> is the block number as a \<^verbatim>\<open>uint64\<close>.\<close>

definition NumberU64 :: "Block \<Rightarrow> uint64" where
  "NumberU64 b = word_of_int (Number b)"

datatype DiffErr = InvalidOldChain | InvalidNewChain

text \<open>
  The loops of \<^verbatim>\<open>diff\<close> follow parent hashes through the database and need not end
  on a database whose parent links form a cycle; \<open>None\<close> is the loop that never
  returns. \<open>reduceTo\<close> is the loop that walks the higher side down to the number \<open>n\<close>,
  collecting the blocks it passes.
\<close>

partial_function (option) reduceTo ::
  "ChainManager \<Rightarrow> uint64 \<Rightarrow> Block option \<Rightarrow> Block list \<Rightarrow> (Block option \<times> Block list) option"
where
  "reduceTo c n blk acc =
     (case blk of
        None \<Rightarrow> Some (None, acc)
      | Some b \<Rightarrow>
          if NumberU64 b \<noteq> n then reduceTo c n (GetBlock c (ParentHash b)) (acc @ [b])
          else Some (Some b, acc))"

partial_function (option) findCommon ::
  "ChainManager \<Rightarrow> Block \<Rightarrow> Block \<Rightarrow> Block list \<Rightarrow> (DiffErr + Block list) option"
where
  "findCommon c oldBlock newBlock newChain =
     (if Hash oldBlock = Hash newBlock then Some (Inr newChain)
      else (case GetBlock c (ParentHash oldBlock) of
              None \<Rightarrow> Some (Inl InvalidOldChain)
            | Some old' \<Rightarrow>
                (case GetBlock c (ParentHash newBlock) of
                   None \<Rightarrow> Some (Inl InvalidNewChain)
                 | Some new' \<Rightarrow> findCommon c old' new' (newChain @ [newBlock]))))"

declare reduceTo.simps [code]
declare findCommon.simps [code]

definition diff_aligned ::
  "ChainManager \<Rightarrow> Block option \<Rightarrow> Block option \<Rightarrow> Block list \<Rightarrow> (DiffErr + Block list) option"
where
  "diff_aligned c oldBlock newBlock newChain =
     (case oldBlock of
        None \<Rightarrow> Some (Inl InvalidOldChain)
      | Some ob \<Rightarrow>
          (case newBlock of
             None \<Rightarrow> Some (Inl InvalidNewChain)
           | Some nb \<Rightarrow> findCommon c ob nb newChain))"

definition chain_diff :: "ChainManager \<Rightarrow> Block \<Rightarrow> Block \<Rightarrow> (DiffErr + Block list) option" where
  "chain_diff c oldBlock newBlock =
     (if NumberU64 newBlock < NumberU64 oldBlock then
        (case reduceTo c (NumberU64 newBlock) (Some oldBlock) [] of
           None \<Rightarrow> None
         | Some (ob, _) \<Rightarrow> diff_aligned c ob (Some newBlock) [])
      else
        (case reduceTo c (NumberU64 oldBlock) (Some newBlock) [] of
           None \<Rightarrow> None
         | Some (nb, newChain) \<Rightarrow> diff_aligned c (Some oldBlock) nb newChain))"

definition merge :: "ChainManager \<Rightarrow> Block \<Rightarrow> Block \<Rightarrow> (DiffErr + ChainManager) option" where
  "merge c oldBlock newBlock =
     (case chain_diff c oldBlock newBlock of
        None \<Rightarrow> None
      | Some (Inl e) \<Rightarrow> Some (Inl e)
      | Some (Inr newChain) \<Rightarrow> Some (Inr (foldl cm_insert c newChain)))"

subsection \<open>The processor, the verifier and the clock\<close>

text \<open>
  Modelled from the spec: the errors of the block processor (\<^verbatim>\<open>core/errors.go\<close> is not
  among the sources) are a known block, a future block, a missing parent, or any
  other error.
\<close>

datatype ProcErr = KnownBlockErr | BlockFutureErr | ParentErr hash | OtherErr string

fun IsKnownBlockErr :: "ProcErr \<Rightarrow> bool" where
  "IsKnownBlockErr KnownBlockErr = True"
| "IsKnownBlockErr _ = False"

fun IsParentErr :: "ProcErr \<Rightarrow> bool" where
  "IsParentErr (ParentErr _) = True"
| "IsParentErr _ = False"

type_synonym Logs = "nat list"

text \<open>
  What \<^verbatim>\<open>InsertChain\<close> takes from outside, by iteration of its loop: the value of the
  interrupt flag it loads, what the processor returns for the block, and the clock
  reading. The proof-of-work verifier is a pure function of the block. The workers
  of \<^verbatim>\<open>verifyNonces\<close> run in parallel; \<open>arrival\<close> is the order in which their results
  reach the channel \<^verbatim>\<open>nonceDone\<close>.
\<close>

record Env =
  Verify :: "Block \<Rightarrow> bool"
  arrival :: "nat list"
  procInterrupt :: "nat \<Rightarrow> bool"
  Process :: "nat \<Rightarrow> Block \<Rightarrow> Logs \<times> ProcErr option"
  Now :: "nat \<Rightarrow> int64"

datatype nonceResult = NonceResult nat bool

definition verifyNonces :: "(Block \<Rightarrow> bool) \<Rightarrow> Block list \<Rightarrow> nat list \<Rightarrow> nonceResult list" where
  "verifyNonces pow blocks order =
     map (\<lambda>k. NonceResult k (pow (blocks ! k))) (filter (\<lambda>k. k < length blocks) order)"

subsection \<open>InsertChain\<close>

datatype ChainErr =
    BlockNonceErr hash int uint64
  | BadHashErr hash
  | FutureErr int64 int64
  | ReorgErr DiffErr
  | ProcessErr ProcErr

datatype Event =
    ChainEvent Block hash Logs
  | ChainSideEvent Block Logs
  | ChainSplitEvent Block Logs

text \<open>
  The variables of one call: the chain manager, the batch (whose blocks the loop
  stamps and flags in place), the event queue with its counters, the flags
  \<^verbatim>\<open>nonceChecked\<close> and the results still to be received from \<^verbatim>\<open>nonceDone\<close>.
\<close>

record LoopState =
  cm :: ChainManager
  chainBlocks :: "Block list"
  queue :: "Event option list"
  canonicalCount :: nat
  sideCount :: nat
  splitCount :: nat
  nonceChecked :: "bool list"
  nonceDone :: "nonceResult list"

text \<open>
  The inner loop \<^verbatim>\<open>for !nonceChecked[i] { r := <-nonceDone; ... }\<close>: it receives results
  until the one for index \<open>k\<close> has been seen, returns at the first invalid result,
  whichever block it is for, and is blocked when the channel stays empty.
\<close>

datatype NonceWait = Verified "bool list" "nonceResult list" | Invalid nat | Blocked

fun awaitNonce :: "nat \<Rightarrow> bool list \<Rightarrow> nonceResult list \<Rightarrow> NonceWait" where
  "awaitNonce k checked [] = (if checked ! k then Verified checked [] else Blocked)"
| "awaitNonce k checked (NonceResult j v # rs) =
     (if checked ! k then Verified checked (NonceResult j v # rs)
      else if \<not> v then Invalid j
      else awaitNonce k (checked[j := True]) rs)"

text \<open>Modelled from the spec: \<^verbatim>\<open>Block.Time()\<close> is the header's time as an \<^verbatim>\<open>int64\<close>.\<close>

definition Block_Time :: "Block \<Rightarrow> int64" where
  "Block_Time b = to_int64 (Time b)"

datatype Outcome =
    Next LoopState
  | Break LoopState
  | Fail nat ChainErr LoopState
  | Hang

definition setBlock :: "LoopState \<Rightarrow> nat \<Rightarrow> Block \<Rightarrow> LoopState" where
  "setBlock s k block = s\<lparr>chainBlocks := (chainBlocks s)[k := block]\<rparr>"

text \<open>\<^verbatim>\<open>block.SetQueued(true); self.futureBlocks.Push(block); continue\<close>\<close>

definition parkBlock :: "LoopState \<Rightarrow> nat \<Rightarrow> Block \<Rightarrow> LoopState" where
  "parkBlock s k block =
     (let block' = block\<lparr>queued := True\<rparr>
      in (setBlock s k block')
           \<lparr>cm := (cm s)\<lparr>futureBlocks := cache_Push (futureBlocks (cm s)) block'\<rparr>\<rparr>)"

text \<open>The end of an iteration: write the block, delete it from the future blocks.\<close>

definition storeBlock :: "LoopState \<Rightarrow> Block \<Rightarrow> LoopState" where
  "storeBlock s block =
     (let c = cm_write (cm s) block
      in s\<lparr>cm := c\<lparr>futureBlocks := cache_Delete (futureBlocks c) (Hash block)\<rparr>\<rparr>)"

text \<open>The block becomes the head: total difficulty, \<^verbatim>\<open>insert\<close>, the \<^verbatim>\<open>ChainEvent\<close>.\<close>

definition newHead :: "LoopState \<Rightarrow> nat \<Rightarrow> Block \<Rightarrow> Logs \<Rightarrow> LoopState" where
  "newHead s k block logs =
     s\<lparr>cm := cm_insert (setTotalDifficulty (cm s) (Td block)) block,
       queue := (queue s)[k := Some (ChainEvent block (Hash block) logs)],
       canonicalCount := canonicalCount s + 1\<rparr>"

text \<open>The part of an iteration after the processor has returned no error.\<close>

definition acceptBlock :: "LoopState \<Rightarrow> nat \<Rightarrow> Block \<Rightarrow> Logs \<Rightarrow> Outcome" where
  "acceptBlock s k block logs =
     (let cblock = currentBlock (cm s) in
      if td (cm s) < Td block then
        (if ParentHash block \<noteq> Hash cblock then
           (case merge (cm s) cblock block of
              None \<Rightarrow> Hang
            | Some (Inl e) \<Rightarrow> Fail k (ReorgErr e) s
            | Some (Inr c) \<Rightarrow>
                Next (storeBlock
                  (newHead
                     (s\<lparr>cm := c,
                        queue := (queue s)[k := Some (ChainSplitEvent block logs)],
                        splitCount := splitCount s + 1\<rparr>) k block logs) block))
         else Next (storeBlock (newHead s k block logs) block))
      else
        Next (storeBlock
          (s\<lparr>queue := (queue s)[k := Some (ChainSideEvent block logs)],
             sideCount := sideCount s + 1\<rparr>) block))"

text \<open>The part of an iteration after the processor has returned the error \<open>e\<close>.\<close>

definition rejectBlock :: "Env \<Rightarrow> LoopState \<Rightarrow> nat \<Rightarrow> Block \<Rightarrow> ProcErr \<Rightarrow> Outcome" where
  "rejectBlock env s k block e =
     (if IsKnownBlockErr e then Next s
      else if e = BlockFutureErr then
        (let max_time = Now env k + maxTimeFutureBlocks in
         if sint max_time < sint (Block_Time block)
         then Fail k (FutureErr (Block_Time block) max_time) s
         else Next (parkBlock s k block))
      else if IsParentErr e \<and> cache_Has (futureBlocks (cm s)) (ParentHash block)
      then Next (parkBlock s k block)
      else Fail k (ProcessErr e) s)"

text \<open>
  One iteration of the loop over the batch, for the block at index \<open>k\<close>. \<open>bad\<close> is the
  blacklist \<^verbatim>\<open>BadHashes\<close> of package \<^verbatim>\<open>core\<close>, which is not among the sources and is
  taken as a parameter.
\<close>

definition insertBlock :: "hash list \<Rightarrow> Env \<Rightarrow> nat \<Rightarrow> LoopState \<Rightarrow> Outcome" where
  "insertBlock bad env k s =
     (if procInterrupt env k then Break s
      else
        (case awaitNonce k (nonceChecked s) (nonceDone s) of
           Blocked \<Rightarrow> Hang
         | Invalid j \<Rightarrow>
             (let block = chainBlocks s ! j
              in Fail j (BlockNonceErr (Hash block) (Number block) (Nonce block)) s)
         | Verified checked rest \<Rightarrow>
             (let s1 = s\<lparr>nonceChecked := checked, nonceDone := rest\<rparr>;
                  block = chainBlocks s1 ! k
              in if Hash block \<in> set bad then Fail k (BadHashErr (Hash block)) s1
                 else
                   (let block' = block\<lparr>Td := CalcTD block (GetBlock (cm s1) (ParentHash block))\<rparr>;
                        s2 = setBlock s1 k block'
                    in (case Process env k block' of
                          (logs, Some e) \<Rightarrow> rejectBlock env s2 k block' e
                        | (logs, None) \<Rightarrow> acceptBlock s2 k block' logs)))))"

text \<open>
  What a call returns: the index and the error, the chain manager and the batch as
  the call leaves them, and the \<^verbatim>\<open>queueEvent\<close> posted when the loop ends normally.
\<close>

record Result =
  ret_index :: nat
  ret_err :: "ChainErr option"
  ret_state :: LoopState
  posted :: bool

definition finished :: "LoopState \<Rightarrow> Result" where
  "finished s = \<lparr>ret_index = 0, ret_err = None, ret_state = s, posted = True\<rparr>"

definition failed :: "nat \<Rightarrow> ChainErr \<Rightarrow> LoopState \<Rightarrow> Result" where
  "failed j e s = \<lparr>ret_index = j, ret_err = Some e, ret_state = s, posted = False\<rparr>"

text \<open>The loop \<^verbatim>\<open>for i, block := range chain\<close>, from index \<open>k\<close> with \<open>n\<close> blocks left;
  \<open>None\<close> is the call that never returns.\<close>

fun insertLoop :: "hash list \<Rightarrow> Env \<Rightarrow> nat \<Rightarrow> nat \<Rightarrow> LoopState \<Rightarrow> Result option" where
  "insertLoop bad env k 0 s = Some (finished s)"
| "insertLoop bad env k (Suc n) s =
     (case insertBlock bad env k s of
        Hang \<Rightarrow> None
      | Break s' \<Rightarrow> Some (finished s')
      | Fail j e s' \<Rightarrow> Some (failed j e s')
      | Next s' \<Rightarrow> insertLoop bad env (Suc k) n s')"

text \<open>The variables as \<^verbatim>\<open>InsertChain\<close> sets them up before its loop.\<close>

definition startState :: "Env \<Rightarrow> ChainManager \<Rightarrow> Block list \<Rightarrow> LoopState" where
  "startState env c blocks =
     \<lparr>cm = c, chainBlocks = blocks,
      queue = replicate (length blocks) None,
      canonicalCount = 0, sideCount = 0, splitCount = 0,
      nonceChecked = replicate (length blocks) False,
      nonceDone = verifyNonces (Verify env) blocks (arrival env)\<rparr>"

definition InsertChain :: "hash list \<Rightarrow> Env \<Rightarrow> ChainManager \<Rightarrow> Block list \<Rightarrow> Result option" where
  "InsertChain bad env c blocks = insertLoop bad env 0 (length blocks) (startState env c blocks)"


text \<open>The block as the loop stamps it: \<^verbatim>\<open>block.Td = CalcTD(block, GetBlock(parent hash))\<close>.\<close>

abbreviation stamp :: "ChainManager \<Rightarrow> Block \<Rightarrow> Block" where
  "stamp c b \<equiv> b\<lparr>Td := CalcTD b (GetBlock c (ParentHash b))\<rparr>"

text \<open>\<open>arrives_before a b order\<close>: the result for index \<open>a\<close> reaches the channel before the
  result for index \<open>b\<close>.\<close>

definition arrives_before :: "nat \<Rightarrow> nat \<Rightarrow> nat list \<Rightarrow> bool" where
  "arrives_before a b order = (a \<in> set (takeWhile (\<lambda>x. x \<noteq> b) order))"

subsection \<open>Reading a list by index\<close>


subsection \<open>The canonical chain\<close>


section \<open>The downloader\<close>

subsection \<open>Constants, errors and data\<close>

definition MinHashFetch :: nat where "MinHashFetch = 512"
definition MaxBlockFetch :: nat where "MaxBlockFetch = 128"
definition maxBannedHashes :: nat where "maxBannedHashes = 4096"

text \<open>Times are in nanoseconds, as \<^verbatim>\<open>time.Duration\<close> counts them.\<close>

definition blockSoftTTL :: int where "blockSoftTTL = 3 * 1000000000"

datatype DlErr =
    ErrInvalidChain
  | ErrTimeout
  | ErrEmptyHashSet
  | ErrBadPeer
  | ErrStallingPeer
  | ErrCrossCheckFailed
  | errCancelHashFetch
  | errCancelBlockFetch
  | errNoBlocksReturned
  | errHeadNotBanned
  | errFetch

text \<open>
  Modelled from the spec: \<^verbatim>\<open>peer.go\<close> and \<^verbatim>\<open>queue.go\<close> are not among the sources. A peer
  has an id and the head hash it advertised; what is asked of it (\<^verbatim>\<open>getHashes\<close>,
  \<^verbatim>\<open>getBlocks\<close>) is recorded as a message sent. The queue holds the scheduled hashes
  in the order of their insertion and the blocks already delivered; \<^verbatim>\<open>Insert\<close> appends
  the hashes not yet known and returns them, \<^verbatim>\<open>Has\<close> tells whether a hash is scheduled
  or delivered, \<^verbatim>\<open>GetBlock\<close> returns a delivered block, \<^verbatim>\<open>Prepare\<close> sets the number of
  the first block.
\<close>

record Peer =
  peer_id :: string
  peer_head :: hash

datatype Sent = GetHashes string hash | GetBlocks string "hash list"

record Queue =
  hashPool :: "hash list"
  blockPool :: "hash \<Rightarrow> Block option"
  blockOffset :: int64

definition newQueue :: Queue where
  "newQueue = \<lparr>hashPool = [], blockPool = (\<lambda>h. None), blockOffset = 0\<rparr>"

fun queue_Insert :: "Queue \<Rightarrow> hash list \<Rightarrow> Queue \<times> hash list" where
  "queue_Insert q [] = (q, [])"
| "queue_Insert q (h # hs) =
     (if h \<in> set (hashPool q) then queue_Insert q hs
      else (case queue_Insert (q\<lparr>hashPool := hashPool q @ [h]\<rparr>) hs of
              (q', inserts) \<Rightarrow> (q', h # inserts)))"

definition queue_Has :: "Queue \<Rightarrow> hash \<Rightarrow> bool" where
  "queue_Has q h = (h \<in> set (hashPool q) \<or> blockPool q h \<noteq> None)"

definition queue_GetBlock :: "Queue \<Rightarrow> hash \<Rightarrow> Block option" where
  "queue_GetBlock q h = blockPool q h"

definition queue_Prepare :: "Queue \<Rightarrow> int64 \<Rightarrow> Queue" where
  "queue_Prepare q offset = q\<lparr>blockOffset := offset\<rparr>"

record crossCheck =
  check_expire :: int
  check_parent :: hash

text \<open>
  The fields of the downloader that hash fetching and banning use. The map
  \<^verbatim>\<open>checks\<close> is an association list with one entry per key; \<^verbatim>\<open>Synchronise\<close> makes the
  map before it starts \<^verbatim>\<open>fetchHashes\<close>. The set \<^verbatim>\<open>banned\<close> is a set of hashes. The
  callbacks \<^verbatim>\<open>hasBlock\<close> and \<^verbatim>\<open>getBlock\<close> read the chain.
\<close>

record Downloader =
  dl_queue :: Queue
  checks :: "(hash \<times> crossCheck) list"
  banned :: "hash set"
  hasBlock :: "hash \<Rightarrow> bool"
  getBlock :: "hash \<Rightarrow> Block option"

definition checks_put :: "(hash \<times> crossCheck) list \<Rightarrow> hash \<Rightarrow> crossCheck \<Rightarrow> (hash \<times> crossCheck) list" where
  "checks_put cs h c = (h, c) # filter (\<lambda>e. fst e \<noteq> h) cs"

definition checks_delete :: "(hash \<times> crossCheck) list \<Rightarrow> hash \<Rightarrow> (hash \<times> crossCheck) list" where
  "checks_delete cs h = filter (\<lambda>e. fst e \<noteq> h) cs"

text \<open>\<^verbatim>\<open>New\<close>: the base downloader, with all the known bad hashes injected. \<open>bad\<close> is the
  blacklist \<^verbatim>\<open>core.BadHashes\<close>, the list of its keys (each mapped to \<^verbatim>\<open>true\<close>).\<close>

definition New :: "hash list \<Rightarrow> (hash \<Rightarrow> bool) \<Rightarrow> (hash \<Rightarrow> Block option) \<Rightarrow> Downloader" where
  "New bad hasBlockFn getBlockFn =
     \<lparr>dl_queue = newQueue, checks = [], banned = set bad,
      hasBlock = hasBlockFn, getBlock = getBlockFn\<rparr>"

subsection \<open>banBlocks\<close>

text \<open>
  What \<^verbatim>\<open>banBlocks\<close> takes from outside: the peer that \<^verbatim>\<open>d.peers.Peer(peerId)\<close> finds,
  the queue's \<^verbatim>\<open>Reserve\<close> (not among the sources: a function that returns the queue
  after the reservation and the request, if one was made), whether \<^verbatim>\<open>peer.Fetch\<close>
  fails, what the \<^verbatim>\<open>select\<close> receives, in order, and the order in which \<^verbatim>\<open>Each\<close>
  visits the members of a set (Go leaves the order of a map iteration open).
\<close>

datatype BanReceived =
    BanCancel
  | BanTimeout
  | BanHashPack
  | BanBlockPack string "Block list"

record BanEnv =
  found_peer :: "Peer option"
  Reserve :: "Queue \<Rightarrow> Peer \<Rightarrow> nat \<Rightarrow> Queue \<times> hash list option"
  fetch_fails :: bool
  received :: "BanReceived list"
  Each_order :: "hash set \<Rightarrow> hash list"

text \<open>The callback of \<^verbatim>\<open>Each\<close>: the first member that is not a hard-coded ban, the zero
  hash when there is none.\<close>

definition evacuate :: "hash list \<Rightarrow> hash list \<Rightarrow> hash" where
  "evacuate bad items = (case find (\<lambda>item. item \<notin> set bad) items of None \<Rightarrow> 0 | Some item \<Rightarrow> item)"

text \<open>The loop \<^verbatim>\<open>for d.banned.Size() > maxBannedHashes\<close>; \<open>None\<close> is the loop that never
  ends.\<close>

partial_function (option) phaseOut ::
  "hash list \<Rightarrow> (hash set \<Rightarrow> hash list) \<Rightarrow> hash set \<Rightarrow> hash set option"
where
  "phaseOut bad order S =
     (if maxBannedHashes < card S
      then phaseOut bad order (S - {evacuate bad (order S)})
      else Some S)"

declare phaseOut.simps [code]

text \<open>Modelled from the spec: \<^verbatim>\<open>types.BlockBy(types.Number).Sort\<close> sorts the blocks by
  number.\<close>

definition sortByNumber :: "Block list \<Rightarrow> Block list" where
  "sortByNumber blocks = sort_key Number blocks"

text \<open>The walk along the sorted blocks: the last block of the linked prefix.\<close>

fun lastLinked :: "Block \<Rightarrow> Block list \<Rightarrow> Block" where
  "lastLinked b [] = b"
| "lastLinked b (x # xs) = (if ParentHash x \<noteq> Hash b then b else lastLinked x xs)"

definition banHead :: "hash list \<Rightarrow> BanEnv \<Rightarrow> Downloader \<Rightarrow> hash \<Rightarrow> Downloader option" where
  "banHead bad env d h =
     (case phaseOut bad (Each_order env) (insert h (banned d)) of
        None \<Rightarrow> None
      | Some S \<Rightarrow> Some (d\<lparr>banned := S\<rparr>))"

text \<open>The loop around the \<^verbatim>\<open>select\<close> of \<^verbatim>\<open>banBlocks\<close>; \<open>None\<close> is the call that does not
  return.\<close>

fun banLoop ::
  "hash list \<Rightarrow> BanEnv \<Rightarrow> Downloader \<Rightarrow> string \<Rightarrow> hash \<Rightarrow> BanReceived list
   \<Rightarrow> (DlErr option \<times> Downloader) option"
where
  "banLoop bad env d peerId h [] = None"
| "banLoop bad env d peerId h (BanCancel # evs) = Some (Some errCancelBlockFetch, d)"
| "banLoop bad env d peerId h (BanTimeout # evs) = Some (Some ErrTimeout, d)"
| "banLoop bad env d peerId h (BanHashPack # evs) = banLoop bad env d peerId h evs"
| "banLoop bad env d peerId h (BanBlockPack pid blocks # evs) =
     (if length blocks = 1 \<and> map_of (checks d) (Hash (blocks ! 0)) \<noteq> None
      then banLoop bad env (d\<lparr>checks := checks_delete (checks d) (Hash (blocks ! 0))\<rparr>)
             peerId h evs
      else if pid \<noteq> peerId then banLoop bad env d peerId h evs
      else
        (case sortByNumber blocks of
           [] \<Rightarrow> Some (Some errNoBlocksReturned, d)
         | b # bs \<Rightarrow>
             if Hash b \<noteq> h then Some (Some errHeadNotBanned, d)
             else (case banHead bad env d (Hash (lastLinked b bs)) of
                     None \<Rightarrow> None
                   | Some d' \<Rightarrow> Some (None, d'))))"

definition banBlocks ::
  "hash list \<Rightarrow> BanEnv \<Rightarrow> Downloader \<Rightarrow> string \<Rightarrow> hash \<Rightarrow> (DlErr option \<times> Downloader) option"
where
  "banBlocks bad env d peerId h =
     (case found_peer env of
        None \<Rightarrow> Some (None, d)
      | Some peer \<Rightarrow>
          (case Reserve env (dl_queue d) peer MaxBlockFetch of
             (q, None) \<Rightarrow> Some (None, d\<lparr>dl_queue := q\<rparr>)
           | (q, Some request) \<Rightarrow>
               if fetch_fails env then Some (Some errFetch, d\<lparr>dl_queue := q\<rparr>)
               else banLoop bad env (d\<lparr>dl_queue := q\<rparr>) peerId h (received env)))"

subsection \<open>fetchHashes\<close>

text \<open>
  What the \<^verbatim>\<open>select\<close> of \<^verbatim>\<open>fetchHashes\<close> receives, each with what the step reads from
  outside: a hash pack comes with the number drawn by \<^verbatim>\<open>rand\<close>, the clock and the
  environment of a call of \<^verbatim>\<open>banBlocks\<close>; the cross-check tick with the clock; the
  timeout with the peers as \<^verbatim>\<open>d.peers.AllPeers()\<close> lists them.
\<close>

record HashEnv =
  random :: nat
  hash_now :: int
  ban_env :: BanEnv

datatype Received =
    Cancel
  | HashPack string "hash list" HashEnv
  | BlockPack string "Block list"
  | CrossTick int
  | Timeout "Peer list"

text \<open>The variables of \<^verbatim>\<open>fetchHashes\<close>, and the messages sent to peers so far.\<close>

record FetchState =
  dl :: Downloader
  active :: Peer
  head :: hash
  attempted :: "string \<Rightarrow> bool"
  sent :: "Sent list"

datatype FetchOutcome =
    Continue FetchState
  | Finished FetchState
  | Failed DlErr FetchState
  | Panic
  | Stuck

text \<open>\<^verbatim>\<open>rand.Intn(n)\<close> panics unless \<open>n\<close> is positive; \<open>None\<close> is the panic. \<open>r\<close> is the number
  the generator draws.\<close>

definition rand_Intn :: "nat \<Rightarrow> int \<Rightarrow> nat option" where
  "rand_Intn r n = (if n \<le> 0 then None else Some (r mod nat n))"

definition getHashes :: "FetchState \<Rightarrow> hash \<Rightarrow> FetchState" where
  "getHashes s from = s\<lparr>sent := sent s @ [GetHashes (peer_id (active s)) from]\<rparr>"

text \<open>The index of the first banned hash of a pack.\<close>

fun bannedIndex :: "hash set \<Rightarrow> hash list \<Rightarrow> nat option" where
  "bannedIndex B [] = None"
| "bannedIndex B (h # hs) = (if h \<in> B then Some 0 else map_option Suc (bannedIndex B hs))"

text \<open>The loop \<^verbatim>\<open>for index, head = range hashPack.hashes\<close>: whether a known hash was
  found, the value it leaves in \<^verbatim>\<open>head\<close>, and the hashes before the known one.\<close>

fun scanKnown :: "(hash \<Rightarrow> bool) \<Rightarrow> hash \<Rightarrow> hash list \<Rightarrow> bool \<times> hash \<times> hash list" where
  "scanKnown known hd0 [] = (False, hd0, [])"
| "scanKnown known hd0 (h # hs) =
     (if known h then (True, h, [])
      else (case scanKnown known h hs of (done, hd1, keep) \<Rightarrow> (done, hd1, h # keep)))"

text \<open>The part of the hash-pack case that follows \<^verbatim>\<open>inserts := d.queue.Insert(...)\<close> when
  the fetch is not done: the stalling check, then the cross check.\<close>

definition crossCheckStep :: "FetchState \<Rightarrow> HashEnv \<Rightarrow> hash list \<Rightarrow> FetchOutcome" where
  "crossCheckStep s env inserts =
     (if length inserts < MinHashFetch then Failed ErrStallingPeer s
      else
        (case rand_Intn (random env) (int (length inserts) - 1) of
           None \<Rightarrow> Panic
         | Some cross \<Rightarrow>
             if length inserts \<le> cross + 1 then Panic
             else
               (let origin = inserts ! cross;
                    parent = inserts ! (cross + 1);
                    d = (dl s)\<lparr>checks := checks_put (checks (dl s)) origin
                               \<lparr>check_expire = hash_now env + blockSoftTTL,
                                check_parent = parent\<rparr>\<rparr>;
                    s1 = s\<lparr>dl := d, sent := sent s @ [GetBlocks (peer_id (active s)) [origin]]\<rparr>
                in Continue (getHashes s1 (head s1)))))"

definition hashPackStep ::
  "hash list \<Rightarrow> FetchState \<Rightarrow> string \<Rightarrow> hash list \<Rightarrow> HashEnv \<Rightarrow> FetchOutcome"
where
  "hashPackStep bad s pid hashes env =
     (if pid \<noteq> peer_id (active s) then Continue s
      else if length hashes = 0 then Failed ErrEmptyHashSet s
      else
        (case bannedIndex (banned (dl s)) hashes of
           Some index \<Rightarrow>
             (let (q, inserts) = queue_Insert (dl_queue (dl s)) (take (index + 1) hashes)
              in (case banBlocks bad (ban_env env) ((dl s)\<lparr>dl_queue := q\<rparr>)
                         (peer_id (active s)) (hashes ! index) of
                    None \<Rightarrow> Stuck
                  | Some (err, d) \<Rightarrow> Failed ErrInvalidChain (s\<lparr>dl := d\<rparr>)))
         | None \<Rightarrow>
             (let (done, hd1, keep) =
                    scanKnown (\<lambda>h. hasBlock (dl s) h \<or> queue_GetBlock (dl_queue (dl s)) h \<noteq> None)
                      (head s) hashes;
                  (q, inserts) = queue_Insert (dl_queue (dl s)) keep;
                  s1 = s\<lparr>dl := (dl s)\<lparr>dl_queue := q\<rparr>, head := hd1\<rparr>
              in if length inserts = 0 \<and> \<not> done then Failed ErrBadPeer s1
                 else if \<not> done then crossCheckStep s1 env inserts
                 else
                   (let offset = (case getBlock (dl s1) hd1 of
                                    None \<Rightarrow> 0
                                  | Some block \<Rightarrow> to_int64 (NumberU64 block + 1))
                    in Finished
                         (s1\<lparr>dl := (dl s1)\<lparr>dl_queue := queue_Prepare (dl_queue (dl s1)) offset\<rparr>\<rparr>)))))"

definition blockPackStep :: "FetchState \<Rightarrow> string \<Rightarrow> Block list \<Rightarrow> FetchOutcome" where
  "blockPackStep s pid blocks =
     (if pid \<noteq> peer_id (active s) \<or> length blocks \<noteq> 1 then Continue s
      else
        (let block = blocks ! 0 in
         case map_of (checks (dl s)) (Hash block) of
           None \<Rightarrow> Continue s
         | Some check \<Rightarrow>
             if ParentHash block \<noteq> check_parent check then Failed ErrCrossCheckFailed s
             else Continue (s\<lparr>dl := (dl s)\<lparr>checks := checks_delete (checks (dl s)) (Hash block)\<rparr>\<rparr>)))"

definition crossTickStep :: "FetchState \<Rightarrow> int \<Rightarrow> FetchOutcome" where
  "crossTickStep s now =
     (if list_ex (\<lambda>e. check_expire (snd e) < now) (checks (dl s))
      then Failed ErrCrossCheckFailed s
      else Continue s)"

text \<open>The timeout case: the first listed peer whose head is in the queue and that is
  not marked as attempted becomes the active peer and is asked for the hashes from
  \<^verbatim>\<open>head\<close>; without such a peer, or with the zero hash in \<^verbatim>\<open>head\<close>, the fetch times out.\<close>

definition timeoutStep :: "FetchState \<Rightarrow> Peer list \<Rightarrow> FetchOutcome" where
  "timeoutStep s allPeers =
     (case find (\<lambda>peer. queue_Has (dl_queue (dl s)) (peer_head peer)
                       \<and> \<not> attempted s (peer_id peer)) allPeers of
        None \<Rightarrow> Failed ErrTimeout s
      | Some p \<Rightarrow>
          if head s = 0 then Failed ErrTimeout s
          else Continue (getHashes (s\<lparr>active := p\<rparr>) (head s)))"

fun fetchStep :: "hash list \<Rightarrow> FetchState \<Rightarrow> Received \<Rightarrow> FetchOutcome" where
  "fetchStep bad s Cancel = Failed errCancelHashFetch s"
| "fetchStep bad s (HashPack pid hashes env) = hashPackStep bad s pid hashes env"
| "fetchStep bad s (BlockPack pid blocks) = blockPackStep s pid blocks"
| "fetchStep bad s (CrossTick now) = crossTickStep s now"
| "fetchStep bad s (Timeout allPeers) = timeoutStep s allPeers"

text \<open>What \<^verbatim>\<open>fetchHashes\<close> returns: the error, if any, and the state it leaves; \<open>None\<close>
  is the call that is still waiting, or stuck in \<^verbatim>\<open>banBlocks\<close>; a panic is an outcome
  of its own.\<close>

datatype FetchResult = Returned "DlErr option" FetchState | Panicked

fun fetchLoop :: "hash list \<Rightarrow> FetchState \<Rightarrow> Received list \<Rightarrow> FetchResult option" where
  "fetchLoop bad s [] = None"
| "fetchLoop bad s (ev # evs) =
     (case fetchStep bad s ev of
        Continue s' \<Rightarrow> fetchLoop bad s' evs
      | Finished s' \<Rightarrow> Some (Returned None s')
      | Failed e s' \<Rightarrow> Some (Returned (Some e) s')
      | Panic \<Rightarrow> Some Panicked
      | Stuck \<Rightarrow> None)"

text \<open>The state before the loop: the hash is inserted and requested from the peer,
  and the peer is marked as attempted.\<close>

definition fetchStart :: "Downloader \<Rightarrow> Peer \<Rightarrow> hash \<Rightarrow> FetchState" where
  "fetchStart d p h =
     (let (q, inserts) = queue_Insert (dl_queue d) [h];
          s = \<lparr>dl = d\<lparr>dl_queue := q\<rparr>, active = p, head = 0,
               attempted = (\<lambda>i. False), sent = []\<rparr>;
          s1 = getHashes s h
      in s1\<lparr>attempted := (attempted s1)(peer_id p := True)\<rparr>)"

definition fetchHashes ::
  "hash list \<Rightarrow> Downloader \<Rightarrow> Peer \<Rightarrow> hash \<Rightarrow> Received list \<Rightarrow> FetchResult option"
where
  "fetchHashes bad d p h evs = fetchLoop bad (fetchStart d p h) evs"



subsection \<open>Concrete inputs\<close>

definition example_params :: Params where
  "example_params =
     \<lparr>DifficultyBoundDivisor = 2048, DurationLimit = 8, MinimumDifficulty = 131072,
      GasLimitBoundDivisor = 1024, MinGasLimit = 125000, GenesisGasLimit = 3141592\<rparr>"

definition example_header :: "hash \<Rightarrow> hash \<Rightarrow> int \<Rightarrow> uint64 \<Rightarrow> int \<Rightarrow> Header" where
  "example_header h ph n t d =
     \<lparr>Hash = h, ParentHash = ph, Number = n, Time = t, Difficulty = d,
      GasLimit = 3141592, GasUsed = 21000, Nonce = 0\<rparr>"

definition example_block :: "hash \<Rightarrow> hash \<Rightarrow> int \<Rightarrow> uint64 \<Rightarrow> int \<Rightarrow> Block" where
  "example_block h ph n t d =
     \<lparr>Hash = h, ParentHash = ph, Number = n, Time = t, Difficulty = d,
      GasLimit = 3141592, GasUsed = 21000, Nonce = 0,
      Uncles = [], Td = 0, queued = False\<rparr>"

text \<open>A chain manager that holds only the genesis block \<open>g\<close>, and one built from it
  by writing and inserting further blocks.\<close>

definition genesis_manager :: "Block \<Rightarrow> ChainManager" where
  "genesis_manager g =
     \<lparr>blockByHash = [Hash g \<mapsto> g], blockNum = [nat \<bar>Number g\<bar> \<mapsto> Hash g],
      LastBlock = Some (Hash g), genesisBlock = g, td = Td g, currentBlock = g,
      lastBlockHash = Hash g,
      cache = cache_Push (NewBlockCache blockCacheLimit) g,
      futureBlocks = NewBlockCache maxFutureBlocks\<rparr>"


definition block0 :: Block where
  "block0 = (example_block 1 0 0 1438269973 131072) \<lparr>Td := 131072\<rparr>"





text \<open>What a call returned, in short: index, error, current block and total
  difficulty; the total difficulties and the flags of the batch after the call; the
  hashes held in the future-block cache.\<close>

definition returned :: "Result option \<Rightarrow> (nat \<times> ChainErr option \<times> Block \<times> int) option" where
  "returned res =
     map_option (\<lambda>r. (ret_index r, ret_err r, currentBlock (cm (ret_state r)),
                      td (cm (ret_state r)))) res"

definition batch_tds :: "Result option \<Rightarrow> int list" where
  "batch_tds res = (case res of None \<Rightarrow> [] | Some r \<Rightarrow> map Td (chainBlocks (ret_state r)))"

definition batch_queued :: "Result option \<Rightarrow> bool list" where
  "batch_queued res =
     (case res of None \<Rightarrow> [] | Some r \<Rightarrow> map queued (chainBlocks (ret_state r)))"

definition future_hashes :: "Result option \<Rightarrow> hash list" where
  "future_hashes res =
     (case res of None \<Rightarrow> [] | Some r \<Rightarrow> map fst (entries (futureBlocks (cm (ret_state r)))))"

text \<open>An environment in which every nonce verifies, results arrive in order, nothing
  interrupts and the processor accepts every block; and variations of it.\<close>

definition accept_all :: "nat \<Rightarrow> Block \<Rightarrow> Logs \<times> ProcErr option" where
  "accept_all k b = ([], None)"

definition verify_all :: "Block \<Rightarrow> bool" where
  "verify_all b = True"

definition never :: "nat \<Rightarrow> bool" where
  "never k = False"

definition always :: "nat \<Rightarrow> bool" where
  "always k = True"

definition clock :: "nat \<Rightarrow> int64" where
  "clock k = 1438270000"

definition example_env :: Env where
  "example_env =
     \<lparr>Verify = verify_all, arrival = [0, 1, 2], procInterrupt = never,
      Process = accept_all, Now = clock\<rparr>"

definition interrupted_env :: Env where
  "interrupted_env = example_env\<lparr>procInterrupt := always\<rparr>"

definition second_fails :: "Block \<Rightarrow> bool" where
  "second_fails b = (Hash b \<noteq> 3)"

definition bad_nonce_env :: Env where
  "bad_nonce_env = example_env\<lparr>Verify := second_fails\<rparr>"

definition reordered_env :: Env where
  "reordered_env = example_env\<lparr>Verify := second_fails, arrival := [1, 0, 2]\<rparr>"

definition future_then_parent :: "nat \<Rightarrow> Block \<Rightarrow> Logs \<times> ProcErr option" where
  "future_then_parent k b =
     (if k = 0 then ([], Some BlockFutureErr) else ([], Some (ParentErr (ParentHash b))))"

definition future_env :: Env where
  "future_env = example_env\<lparr>arrival := [0, 1], Process := future_then_parent\<rparr>"

definition new1 :: Block where "new1 = example_block 2 1 1 1438269988 131073"
definition new2 :: Block where "new2 = example_block 3 2 2 1438270017 131074"
definition new3 :: Block where "new3 = example_block 4 3 3 1438270037 131075"

text \<open>A successor of the genesis block ten seconds, and one forty seconds, ahead of
  the clock.\<close>

definition soon1 :: Block where "soon1 = example_block 2 1 1 1438270010 131073"
definition far1 :: Block where "far1 = example_block 2 1 1 1438270040 131073"

text \<open>A successor of the genesis block whose header time is \<open>2^63\<close>; a clock ten seconds
  from the end of the \<^verbatim>\<open>int64\<close> range, and a successor of the genesis block five
  seconds ahead of that clock.\<close>

definition wrapped1 :: Block where
  "wrapped1 = example_block 2 1 1 9223372036854775808 131073"

definition late_clock :: "nat \<Rightarrow> int64" where
  "late_clock k = 9223372036854775798"

definition late_env :: Env where
  "late_env = future_env\<lparr>Now := late_clock\<rparr>"

definition late1 :: Block where
  "late1 = example_block 2 1 1 9223372036854775803 131073"



text \<open>Inputs for the downloader: two peers that advertise the same head, a chain that
  knows no block, 512 fresh hashes, a \<^verbatim>\<open>Reserve\<close> that hands out the first pending
  hashes, and a set iteration in ascending order.\<close>

definition peerA :: Peer where "peerA = \<lparr>peer_id = ''A'', peer_head = 1000\<rparr>"
definition peerB :: Peer where "peerB = \<lparr>peer_id = ''B'', peer_head = 1000\<rparr>"

definition no_block :: "hash \<Rightarrow> bool" where "no_block h = False"
definition no_getblock :: "hash \<Rightarrow> Block option" where "no_getblock h = None"

definition many_hashes :: "hash list" where
  "many_hashes = map word_of_nat [1001..<1513]"

definition reserve_pending :: "Queue \<Rightarrow> Peer \<Rightarrow> nat \<Rightarrow> Queue \<times> hash list option" where
  "reserve_pending q p n = (q, (if hashPool q = [] then None else Some (take n (hashPool q))))"

definition ascending :: "hash set \<Rightarrow> hash list" where
  "ascending S = sorted_list_of_set S"

definition banned7 :: Block where "banned7 = example_block 7 6 10 1438269988 131072"
definition banned8 :: Block where "banned8 = example_block 8 7 11 1438269999 131072"

definition example_ban_env :: BanEnv where
  "example_ban_env =
     \<lparr>found_peer = Some peerB, Reserve = reserve_pending, fetch_fails = False,
      received = [BanHashPack, BanBlockPack ''B'' [banned8, banned7]],
      Each_order = ascending\<rparr>"

definition example_hash_env :: HashEnv where
  "example_hash_env = \<lparr>random = 3, hash_now = 0, ban_env = example_ban_env\<rparr>"

definition example_downloader :: Downloader where
  "example_downloader = New [] no_block no_getblock"








section \<open>Difficulty and gas limit\<close>

lemma sint_small:
  fixes x :: "64 word"
  assumes "uint x < 2 ^ 63"
  shows "sint x = uint x"
proof -
  have "sint x = signed_take_bit 63 (uint x)"
    by (simp add: sint_uint)
  also have "\<dots> = uint x"
    using assms by (intro signed_take_bit_int_eq_self) (auto intro: order_trans [of _ 0])
  finally show ?thesis .
qed

lemma sint_sub_small:
  fixes x y :: "64 word"
  assumes "uint x < 2 ^ 63" "uint y < 2 ^ 63"
  shows "sint (x - y) = uint x - uint y"
proof -
  have "sint (x - y) = signed_take_bit 63 (sint x - sint y)"
    by (simp add: sint_word_ariths)
  also have "\<dots> = signed_take_bit 63 (uint x - uint y)"
    using assms by (simp add: sint_small)
  also have "\<dots> = uint x - uint y"
  proof (intro signed_take_bit_int_eq_self)
    have "0 \<le> uint x" "0 \<le> uint y" by simp_all
    with assms show "- (2 ^ 63) \<le> uint x - uint y" "uint x - uint y < 2 ^ 63" by linarith+
  qed
  finally show ?thesis .
qed

text \<open>
  Claim C6, as stated: for every header \<open>B\<close> and parent header \<open>P\<close> the computed
  difficulty is the difficulty rule, with \<open>B.time - P.time\<close> compared against the
  duration limit. This fails for timestamps of \<open>2^63\<close> and more: \<^verbatim>\<open>CalcDifficulty\<close>
  subtracts the timestamps as \<^verbatim>\<open>int64\<close>, so a block at time \<open>2^63\<close> on a parent at time
  \<open>0\<close> has the difference \<open>- 2^63\<close>, below every duration limit, and the difficulty is
  raised where the rule lowers it.
\<close>

theorem CalcDifficulty_rule_counterexample:
  "CalcDifficulty example_params
     (example_header 2 1 1 (2 ^ 63) 0) (example_header 1 0 0 0 2097152) = Some 2098176
   \<and> difficulty_rule example_params
     (example_header 2 1 1 (2 ^ 63) 0) (example_header 1 0 0 0 2097152) = 2096128"
  by (simp add: CalcDifficulty_def difficulty_rule_def example_params_def example_header_def
      big_Div_def big_NewInt_def to_int64_def)

text \<open>
  Claim C6, amended: for headers whose timestamps are below \<open>2^63\<close> (and a positive
  bound divisor, without which the division panics), the computed difficulty is
  \<open>P.difficulty + adjust\<close> when \<open>B.time - P.time < DurationLimit\<close> and
  \<open>P.difficulty - adjust\<close> otherwise, with \<open>adjust = P.difficulty / BoundDivisor\<close>,
  raised to \<open>MinimumDifficulty\<close> when it falls below it.
\<close>

theorem CalcDifficulty_rule:
  assumes "0 < DifficultyBoundDivisor p"
    and "uint (Time B) < 2 ^ 63" and "uint (Time P) < 2 ^ 63"
  shows "CalcDifficulty p B P = Some (difficulty_rule p B P)"
  using assms
  by (auto simp: CalcDifficulty_def difficulty_rule_def big_Div_def big_NewInt_def to_int64_def
      sint_sub_small Let_def max_def)

theorem CalcDifficulty_rule_witness:
  "CalcDifficulty example_params
     (example_header 2 1 1 1438269988 0) (example_header 1 0 0 1438269973 2097152)
   = Some 2096128
   \<and> CalcDifficulty example_params
     (example_header 2 1 1 1438269975 0) (example_header 1 0 0 1438269973 2097152)
   = Some 2098176"
  using CalcDifficulty_rule [of example_params
      "example_header 2 1 1 1438269988 0" "example_header 1 0 0 1438269973 2097152"]
    CalcDifficulty_rule [of example_params
      "example_header 2 1 1 1438269975 0" "example_header 1 0 0 1438269973 2097152"]
  by (simp add: difficulty_rule_def example_params_def example_header_def)

text \<open>
  Claim C7: for every parent block \<open>P\<close> the computed gas limit is
  \<open>max (P.gasLimit - decay + contrib + 1) MinGasLimit\<close>, with
  \<open>decay = P.gasLimit / BoundDivisor\<close> and \<open>contrib = (P.gasUsed * 3 / 2) / BoundDivisor\<close>,
  replaced by \<open>min GenesisGasLimit (P.gasLimit + decay)\<close> when it is below
  \<open>GenesisGasLimit\<close>. The bound divisor is positive: on a zero divisor the division
  panics.
\<close>

theorem CalcGasLimit_rule:
  assumes "0 < GasLimitBoundDivisor p"
  shows "CalcGasLimit p P = Some (gas_limit_rule p P)"
  using assms
  by (auto simp: CalcGasLimit_def gas_limit_rule_def big_Div_def BigMax_def BigMin_def
      Let_def max_def min_def)

theorem CalcGasLimit_rule_witness:
  "CalcGasLimit example_params (example_block 1 0 0 0 131072) = Some 3141592
   \<and> CalcGasLimit example_params
       ((example_block 1 0 0 0 131072) \<lparr>GasLimit := 4000000, GasUsed := 3000000\<rparr>)
     = Some 4000489"
  using CalcGasLimit_rule [of example_params "example_block 1 0 0 0 131072"]
    CalcGasLimit_rule [of example_params
      "(example_block 1 0 0 0 131072) \<lparr>GasLimit := 4000000, GasUsed := 3000000\<rparr>"]
  by (simp add: gas_limit_rule_def example_params_def example_block_def)

section \<open>Hashes along the canonical chain\<close>











section \<open>Importing a chain\<close>

lemmas cm_defs = InsertChain_def startState_def insertBlock_def acceptBlock_def rejectBlock_def
  storeBlock_def newHead_def parkBlock_def setBlock_def cm_write_def cm_insert_def
  setTotalDifficulty_def verifyNonces_def finished_def failed_def GetBlock_def CalcTD_def
  Let_def cache_Push_def cache_Delete_def cache_Has_def NewBlockCache_def Block_Time_def
  to_int64_def maxTimeFutureBlocks_def

lemmas ex_defs = returned_def batch_tds_def batch_queued_def future_hashes_def
  example_env_def interrupted_env_def bad_nonce_env_def reordered_env_def future_env_def
  accept_all_def verify_all_def never_def always_def clock_def second_fails_def
  future_then_parent_def new1_def new2_def new3_def soon1_def far1_def example_block_def
  genesis_manager_def block0_def

subsection \<open>Waiting for the nonce results\<close>

lemma awaitNonce_all_valid:
  assumes "\<forall>r \<in> set rs. \<exists>j. r = NonceResult j True"
    and "k < length ch"
    and "ch ! k \<or> NonceResult k True \<in> set rs"
  shows "\<exists>ch' rest. awaitNonce k ch rs = Verified ch' rest
           \<and> length ch' = length ch \<and> ch' ! k
           \<and> (\<forall>r \<in> set rest. \<exists>j. r = NonceResult j True)
           \<and> (\<forall>j < length ch. ch ! j \<or> NonceResult j True \<in> set rs
                 \<longrightarrow> ch' ! j \<or> NonceResult j True \<in> set rest)"
  using assms
proof (induction rs arbitrary: ch)
  case Nil
  then show ?case by simp
next
  case (Cons r rs)
  from Cons.prems(1) obtain j where r: "r = NonceResult j True" by auto
  show ?case
  proof (cases "ch ! k")
    case True
    then show ?thesis using Cons.prems r by auto
  next
    case False
    let ?ch = "ch[j := True]"
    have a: "\<forall>r \<in> set rs. \<exists>j. r = NonceResult j True" using Cons.prems(1) by simp
    have b: "k < length ?ch" using Cons.prems(2) by simp
    have c: "?ch ! k \<or> NonceResult k True \<in> set rs"
      using Cons.prems(2,3) False r by (cases "j = k") auto
    from Cons.IH [OF a b c] obtain ch' rest where
      w: "awaitNonce k ?ch rs = Verified ch' rest" "length ch' = length ?ch" "ch' ! k"
         "\<forall>r \<in> set rest. \<exists>j. r = NonceResult j True"
         "\<forall>i < length ?ch. ?ch ! i \<or> NonceResult i True \<in> set rs
                 \<longrightarrow> ch' ! i \<or> NonceResult i True \<in> set rest"
      by blast
    have "awaitNonce k ch (r # rs) = Verified ch' rest"
      using False r w(1) by simp
    moreover have "\<forall>i < length ch. ch ! i \<or> NonceResult i True \<in> set (r # rs)
                 \<longrightarrow> ch' ! i \<or> NonceResult i True \<in> set rest"
    proof (intro allI impI)
      fix i assume i: "i < length ch" and h: "ch ! i \<or> NonceResult i True \<in> set (r # rs)"
      have "?ch ! i \<or> NonceResult i True \<in> set rs"
        using i h r by (cases "i = j") auto
      with w(5) i show "ch' ! i \<or> NonceResult i True \<in> set rest" by (metis length_list_update)
    qed
    ultimately show ?thesis using w by auto
  qed
qed

lemma verifyNonces_valid:
  assumes "\<forall>k < length bs. pow (bs ! k)"
  shows "\<forall>r \<in> set (verifyNonces pow bs order). \<exists>j. r = NonceResult j True"
  using assms by (auto simp: verifyNonces_def)

lemma verifyNonces_arrives:
  assumes "k < length bs" "k \<in> set order" "pow (bs ! k)"
  shows "NonceResult k True \<in> set (verifyNonces pow bs order)"
  using assms by (auto simp: verifyNonces_def)

subsection \<open>A batch that extends the head\<close>

lemma insertBlock_new_head:
  assumes "\<not> procInterrupt env k"
    and "awaitNonce k (nonceChecked s) (nonceDone s) = Verified ch rest"
    and "Hash (chainBlocks s ! k) \<notin> set bad"
    and "snd (Process env k
           ((chainBlocks s ! k)\<lparr>Td := CalcTD (chainBlocks s ! k)
               (GetBlock (cm s) (ParentHash (chainBlocks s ! k)))\<rparr>)) = None"
    and "td (cm s) < CalcTD (chainBlocks s ! k) (GetBlock (cm s) (ParentHash (chainBlocks s ! k)))"
    and "ParentHash (chainBlocks s ! k) = Hash (currentBlock (cm s))"
  shows "\<exists>s'. insertBlock bad env k s = Next s'
     \<and> chainBlocks s' = (chainBlocks s)[k := (chainBlocks s ! k)\<lparr>Td := CalcTD (chainBlocks s ! k)
               (GetBlock (cm s) (ParentHash (chainBlocks s ! k)))\<rparr>]
     \<and> currentBlock (cm s') = (chainBlocks s ! k)\<lparr>Td := CalcTD (chainBlocks s ! k)
               (GetBlock (cm s) (ParentHash (chainBlocks s ! k)))\<rparr>
     \<and> td (cm s') = CalcTD (chainBlocks s ! k) (GetBlock (cm s) (ParentHash (chainBlocks s ! k)))
     \<and> blockByHash (cm s') = (blockByHash (cm s))(Hash (chainBlocks s ! k) \<mapsto> currentBlock (cm s'))
     \<and> nonceChecked s' = ch \<and> nonceDone s' = rest"
  using assms
  by (cases "Process env k
           ((chainBlocks s ! k)\<lparr>Td := CalcTD (chainBlocks s ! k)
               (GetBlock (cm s) (ParentHash (chainBlocks s ! k)))\<rparr>)")
     (simp add: insertBlock_def acceptBlock_def storeBlock_def newHead_def setBlock_def
      cm_write_def cm_insert_def setTotalDifficulty_def Let_def)


lemma insertLoop_linear:
  assumes "length (chainBlocks s) = k + n"
    and "length (nonceChecked s) = k + n"
    and "\<forall>r \<in> set (nonceDone s). \<exists>j. r = NonceResult j True"
    and "\<forall>j < k + n. nonceChecked s ! j \<or> NonceResult j True \<in> set (nonceDone s)"
    and "\<forall>j. k \<le> j \<and> j < k + n \<longrightarrow> \<not> procInterrupt env j"
    and "\<forall>j. k \<le> j \<and> j < k + n \<longrightarrow> Hash (chainBlocks s ! j) \<notin> set bad"
    and "\<forall>j. k \<le> j \<and> j < k + n \<longrightarrow> (\<forall>t. snd (Process env j ((chainBlocks s ! j)\<lparr>Td := t\<rparr>)) = None)"
    and "\<forall>j. k < j \<and> j < k + n \<longrightarrow>
           ParentHash (chainBlocks s ! j) = Hash (chainBlocks s ! (j - 1))
           \<and> 0 < Difficulty (chainBlocks s ! j)"
    and "0 < n \<longrightarrow> ParentHash (chainBlocks s ! k) = Hash (currentBlock (cm s))
           \<and> td (cm s) < CalcTD (chainBlocks s ! k) (GetBlock (cm s) (ParentHash (chainBlocks s ! k)))"
    and "0 < k \<longrightarrow> currentBlock (cm s) = chainBlocks s ! (k - 1)
           \<and> td (cm s) = Td (chainBlocks s ! (k - 1))"
  shows "\<exists>r. insertLoop bad env k n s = Some r \<and> ret_index r = 0 \<and> ret_err r = None \<and> posted r
           \<and> length (chainBlocks (ret_state r)) = k + n
           \<and> (\<forall>j < k + n. (chainBlocks (ret_state r) ! j)\<lparr>Td := 0\<rparr> = (chainBlocks s ! j)\<lparr>Td := 0\<rparr>)
           \<and> (0 < k + n \<longrightarrow>
                 currentBlock (cm (ret_state r)) = chainBlocks (ret_state r) ! (k + n - 1)
               \<and> td (cm (ret_state r)) = Td (chainBlocks (ret_state r) ! (k + n - 1)))"
  using assms
proof (induction n arbitrary: k s)
  case 0
  then show ?case by (simp add: finished_def)
next
  case (Suc n)
  let ?b = "chainBlocks s ! k"
  let ?b' = "stamp (cm s) ?b"
  have k: "k < length (nonceChecked s)" using Suc.prems(2) by simp
  have "nonceChecked s ! k \<or> NonceResult k True \<in> set (nonceDone s)"
    using Suc.prems(4) by simp
  from awaitNonce_all_valid [OF Suc.prems(3) k this]
  obtain ch rest where w: "awaitNonce k (nonceChecked s) (nonceDone s) = Verified ch rest"
    "length ch = length (nonceChecked s)"
    "\<forall>r \<in> set rest. \<exists>j. r = NonceResult j True"
    "\<forall>j < length (nonceChecked s). nonceChecked s ! j \<or> NonceResult j True \<in> set (nonceDone s)
                 \<longrightarrow> ch ! j \<or> NonceResult j True \<in> set rest"
    by blast
  have i1: "\<not> procInterrupt env k" using Suc.prems(5) by simp
  have i2: "Hash ?b \<notin> set bad" using Suc.prems(6) by simp
  have i3: "snd (Process env k ?b') = None" using Suc.prems(7) by simp
  have i4: "td (cm s) < CalcTD ?b (GetBlock (cm s) (ParentHash ?b))"
    and i5: "ParentHash ?b = Hash (currentBlock (cm s))"
    using Suc.prems(9) by blast+
  from insertBlock_new_head [OF i1 w(1) i2 i3 i4 i5]
  obtain s' where s': "insertBlock bad env k s = Next s'"
    "chainBlocks s' = (chainBlocks s)[k := ?b']"
    "currentBlock (cm s') = ?b'"
    "td (cm s') = CalcTD ?b (GetBlock (cm s) (ParentHash ?b))"
    "blockByHash (cm s') = (blockByHash (cm s))(Hash ?b \<mapsto> currentBlock (cm s'))"
    "nonceChecked s' = ch" "nonceDone s' = rest"
    by blast
  have len: "k < length (chainBlocks s)" using Suc.prems(1) by simp
  have p1: "length (chainBlocks s') = Suc k + n" using s'(2) Suc.prems(1) by simp
  have p2: "length (nonceChecked s') = Suc k + n" using s'(6) w(2) Suc.prems(2) by simp
  have p3: "\<forall>r \<in> set (nonceDone s'). \<exists>j. r = NonceResult j True" using s'(7) w(3) by simp
  have p4: "\<forall>j < Suc k + n. nonceChecked s' ! j \<or> NonceResult j True \<in> set (nonceDone s')"
    using s'(6,7) w(4) Suc.prems(2,4) by simp
  have p5: "\<forall>j. Suc k \<le> j \<and> j < Suc k + n \<longrightarrow> \<not> procInterrupt env j"
    using Suc.prems(5) by simp
  have same: "\<And>j. j \<noteq> k \<Longrightarrow> chainBlocks s' ! j = chainBlocks s ! j"
    using s'(2) by simp
  have atk: "chainBlocks s' ! k = ?b'" using s'(2) len by simp
  have p6: "\<forall>j. Suc k \<le> j \<and> j < Suc k + n \<longrightarrow> Hash (chainBlocks s' ! j) \<notin> set bad"
    using Suc.prems(6) same by simp
  have p7: "\<forall>j. Suc k \<le> j \<and> j < Suc k + n \<longrightarrow>
      (\<forall>t. snd (Process env j ((chainBlocks s' ! j)\<lparr>Td := t\<rparr>)) = None)"
    using Suc.prems(7) same by simp
  have p8: "\<forall>j. Suc k < j \<and> j < Suc k + n \<longrightarrow>
           ParentHash (chainBlocks s' ! j) = Hash (chainBlocks s' ! (j - 1))
           \<and> 0 < Difficulty (chainBlocks s' ! j)"
  proof (intro allI impI)
    fix j assume j: "Suc k < j \<and> j < Suc k + n"
    then have "j \<noteq> k" "j - 1 \<noteq> k" by linarith+
    with same have "chainBlocks s' ! j = chainBlocks s ! j"
      "chainBlocks s' ! (j - 1) = chainBlocks s ! (j - 1)" by simp_all
    moreover have "ParentHash (chainBlocks s ! j) = Hash (chainBlocks s ! (j - 1))
           \<and> 0 < Difficulty (chainBlocks s ! j)"
      using Suc.prems(8) j by simp
    ultimately show "ParentHash (chainBlocks s' ! j) = Hash (chainBlocks s' ! (j - 1))
           \<and> 0 < Difficulty (chainBlocks s' ! j)" by simp
  qed
  have p9: "0 < n \<longrightarrow> ParentHash (chainBlocks s' ! Suc k) = Hash (currentBlock (cm s'))
           \<and> td (cm s') < CalcTD (chainBlocks s' ! Suc k)
                (GetBlock (cm s') (ParentHash (chainBlocks s' ! Suc k)))"
  proof
    assume n: "0 < n"
    have nx: "chainBlocks s' ! Suc k = chainBlocks s ! Suc k" using same by simp
    have lk: "ParentHash (chainBlocks s ! Suc k) = Hash ?b" "0 < Difficulty (chainBlocks s ! Suc k)"
      using Suc.prems(8) n by simp_all
    have "GetBlock (cm s') (ParentHash (chainBlocks s' ! Suc k)) = Some ?b'"
      using nx lk(1) s'(3,5) by (simp add: GetBlock_def)
    then show "ParentHash (chainBlocks s' ! Suc k) = Hash (currentBlock (cm s'))
           \<and> td (cm s') < CalcTD (chainBlocks s' ! Suc k)
                (GetBlock (cm s') (ParentHash (chainBlocks s' ! Suc k)))"
      using nx lk s'(3,4) by (simp add: CalcTD_def)
  qed
  have p10: "0 < Suc k \<longrightarrow> currentBlock (cm s') = chainBlocks s' ! (Suc k - 1)
           \<and> td (cm s') = Td (chainBlocks s' ! (Suc k - 1))"
    using atk s'(3,4) by simp
  from Suc.IH [OF p1 p2 p3 p4 p5 p6 p7 p8 p9 p10]
  obtain r where r: "insertLoop bad env (Suc k) n s' = Some r" "ret_index r = 0"
    "ret_err r = None" "posted r"
    "length (chainBlocks (ret_state r)) = Suc k + n"
    "\<forall>j < Suc k + n. (chainBlocks (ret_state r) ! j)\<lparr>Td := 0\<rparr> = (chainBlocks s' ! j)\<lparr>Td := 0\<rparr>"
    "0 < Suc k + n \<longrightarrow>
                 currentBlock (cm (ret_state r)) = chainBlocks (ret_state r) ! (Suc k + n - 1)
               \<and> td (cm (ret_state r)) = Td (chainBlocks (ret_state r) ! (Suc k + n - 1))"
    by blast
  have "insertLoop bad env k (Suc n) s = Some r" using s'(1) r(1) by simp
  moreover have "\<forall>j < k + Suc n.
      (chainBlocks (ret_state r) ! j)\<lparr>Td := 0\<rparr> = (chainBlocks s ! j)\<lparr>Td := 0\<rparr>"
  proof (intro allI impI)
    fix j assume "j < k + Suc n"
    then have "(chainBlocks (ret_state r) ! j)\<lparr>Td := 0\<rparr> = (chainBlocks s' ! j)\<lparr>Td := 0\<rparr>"
      using r(6) by simp
    also have "\<dots> = (chainBlocks s ! j)\<lparr>Td := 0\<rparr>"
      using same atk by (cases "j = k") simp_all
    finally show "(chainBlocks (ret_state r) ! j)\<lparr>Td := 0\<rparr> = (chainBlocks s ! j)\<lparr>Td := 0\<rparr>" .
  qed
  ultimately show ?case using r by simp
qed

text \<open>
  Claim C1, as stated: every chain whose first block names the current head as
  parent, whose later blocks each name their predecessor, whose nonces all verify,
  which the processor accepts and whose total difficulties increase strictly above
  the manager's, is imported with the return \<open>(0, nil)\<close>, and the last block becomes
  the current block. Two guards of \<^verbatim>\<open>InsertChain\<close> that the statement leaves out make it
  fail. A block whose hash is blacklisted is refused before the processor sees it:
  the one-block chain \<open>[new1]\<close> meets every condition listed, and with hash 2 in the
  blacklist the call returns index 0 with the bad-hash error and the head stays the
  genesis block. When the interrupt flag is set the loop is left at once: the call
  returns \<open>(0, nil)\<close> and the head stays the genesis block.
\<close>

theorem InsertChain_linear_counterexample:
  "ParentHash new1 = Hash (currentBlock (genesis_manager block0))
   \<and> Verify example_env new1
   \<and> snd (Process example_env 0 (stamp (genesis_manager block0) new1)) = None
   \<and> td (genesis_manager block0)
       < CalcTD new1 (GetBlock (genesis_manager block0) (ParentHash new1))
   \<and> returned (InsertChain [2] example_env (genesis_manager block0) [new1])
       = Some (0, Some (BadHashErr 2), block0, 131072)
   \<and> returned (InsertChain [] interrupted_env (genesis_manager block0) [new1])
       = Some (0, None, block0, 131072)"
  by (simp add: cm_defs ex_defs)

text \<open>
  Claim C1, amended: let a non-empty chain be such that its first block names the
  current head as parent and every later block names its predecessor; the nonce
  result of every block arrives and is valid; the processor returns no error for
  any of the blocks; the total difficulty stamped on the first block exceeds the
  manager's and every later block has a positive difficulty (so that the stamped
  total difficulties increase strictly); no block's hash is blacklisted; and the
  interrupt flag is not set during the call. Then \<^verbatim>\<open>InsertChain\<close> returns \<open>(0, nil)\<close>,
  the current block is the last block of the batch and the manager's total
  difficulty is the one stamped on it; the blocks of the batch are the given ones
  up to the stamped total difficulty.
\<close>

theorem InsertChain_linear:
  assumes "bs \<noteq> []"
    and "ParentHash (bs ! 0) = Hash (currentBlock c)"
    and "\<forall>k. 0 < k \<and> k < length bs \<longrightarrow> ParentHash (bs ! k) = Hash (bs ! (k - 1))"
    and "\<forall>k < length bs. k \<in> set (arrival env) \<and> Verify env (bs ! k)"
    and "\<forall>k < length bs. \<forall>t. snd (Process env k ((bs ! k)\<lparr>Td := t\<rparr>)) = None"
    and "td c < CalcTD (bs ! 0) (GetBlock c (ParentHash (bs ! 0)))"
    and "\<forall>k. 0 < k \<and> k < length bs \<longrightarrow> 0 < Difficulty (bs ! k)"
    and "\<forall>k < length bs. Hash (bs ! k) \<notin> set bad"
    and "\<forall>k < length bs. \<not> procInterrupt env k"
  shows "\<exists>r. InsertChain bad env c bs = Some r \<and> ret_index r = 0 \<and> ret_err r = None
           \<and> currentBlock (cm (ret_state r)) = last (chainBlocks (ret_state r))
           \<and> td (cm (ret_state r)) = Td (last (chainBlocks (ret_state r)))
           \<and> map (\<lambda>b. b\<lparr>Td := 0\<rparr>) (chainBlocks (ret_state r)) = map (\<lambda>b. b\<lparr>Td := 0\<rparr>) bs"
proof -
  let ?s = "startState env c bs"
  have st: "cm ?s = c" "chainBlocks ?s = bs" "nonceChecked ?s = replicate (length bs) False"
    "nonceDone ?s = verifyNonces (Verify env) bs (arrival env)"
    by (simp_all add: startState_def)
  have "\<exists>r. insertLoop bad env 0 (length bs) ?s = Some r \<and> ret_index r = 0 \<and> ret_err r = None \<and> posted r
           \<and> length (chainBlocks (ret_state r)) = 0 + length bs
           \<and> (\<forall>j < 0 + length bs. (chainBlocks (ret_state r) ! j)\<lparr>Td := 0\<rparr> = (chainBlocks ?s ! j)\<lparr>Td := 0\<rparr>)
           \<and> (0 < 0 + length bs \<longrightarrow>
                 currentBlock (cm (ret_state r)) = chainBlocks (ret_state r) ! (0 + length bs - 1)
               \<and> td (cm (ret_state r)) = Td (chainBlocks (ret_state r) ! (0 + length bs - 1)))"
  proof (rule insertLoop_linear)
    show "\<forall>r \<in> set (nonceDone ?s). \<exists>j. r = NonceResult j True"
      using verifyNonces_valid [of bs "Verify env" "arrival env"] assms(4) st by simp
    show "\<forall>j < 0 + length bs. nonceChecked ?s ! j \<or> NonceResult j True \<in> set (nonceDone ?s)"
      using verifyNonces_arrives [of _ bs "arrival env" "Verify env"] assms(4) st by simp
  qed (use assms st in simp_all)
  then obtain r where r: "insertLoop bad env 0 (length bs) ?s = Some r" "ret_index r = 0"
    "ret_err r = None" "length (chainBlocks (ret_state r)) = length bs"
    "\<forall>j < length bs. (chainBlocks (ret_state r) ! j)\<lparr>Td := 0\<rparr> = (bs ! j)\<lparr>Td := 0\<rparr>"
    "currentBlock (cm (ret_state r)) = chainBlocks (ret_state r) ! (length bs - 1)"
    "td (cm (ret_state r)) = Td (chainBlocks (ret_state r) ! (length bs - 1))"
    using assms(1) st by auto
  have ne: "chainBlocks (ret_state r) \<noteq> []" using r(4) assms(1) by auto
  have "map (\<lambda>b. b\<lparr>Td := 0\<rparr>) (chainBlocks (ret_state r)) = map (\<lambda>b. b\<lparr>Td := 0\<rparr>) bs"
    using r(4,5) by (simp add: list_eq_iff_nth_eq)
  then show ?thesis
    using r ne by (simp add: InsertChain_def last_conv_nth)
qed


theorem InsertChain_linear_witness:
  "(\<exists>r. InsertChain [] example_env (genesis_manager block0) [new1, new2, new3] = Some r
        \<and> ret_index r = 0 \<and> ret_err r = None
        \<and> currentBlock (cm (ret_state r)) = last (chainBlocks (ret_state r))
        \<and> td (cm (ret_state r)) = Td (last (chainBlocks (ret_state r)))
        \<and> map (\<lambda>b. b\<lparr>Td := 0\<rparr>) (chainBlocks (ret_state r))
            = map (\<lambda>b. b\<lparr>Td := 0\<rparr>) [new1, new2, new3])
   \<and> returned (InsertChain [] example_env (genesis_manager block0) [new1, new2, new3])
       = Some (0, None, new3\<lparr>Td := 524294\<rparr>, 524294)"
proof
  show "\<exists>r. InsertChain [] example_env (genesis_manager block0) [new1, new2, new3] = Some r
        \<and> ret_index r = 0 \<and> ret_err r = None
        \<and> currentBlock (cm (ret_state r)) = last (chainBlocks (ret_state r))
        \<and> td (cm (ret_state r)) = Td (last (chainBlocks (ret_state r)))
        \<and> map (\<lambda>b. b\<lparr>Td := 0\<rparr>) (chainBlocks (ret_state r))
            = map (\<lambda>b. b\<lparr>Td := 0\<rparr>) [new1, new2, new3]"
    by (rule InsertChain_linear)
      (simp_all add: ex_defs GetBlock_def CalcTD_def less_Suc_eq numeral_3_eq_3 nth_Cons')
  show "returned (InsertChain [] example_env (genesis_manager block0) [new1, new2, new3])
       = Some (0, None, new3\<lparr>Td := 524294\<rparr>, 524294)"
    by (simp add: cm_defs ex_defs)
qed

subsection \<open>The total difficulty stamped on a block\<close>








subsection \<open>Future blocks\<close>

lemma sint_add_small:
  fixes x :: "64 word"
  assumes "sint x + 30 < 2 ^ 63"
  shows "sint (x + 30) = sint x + 30"
proof -
  have "sint (x + 30) = signed_take_bit 63 (sint x + sint (30 :: 64 word))"
    by (simp add: sint_word_ariths)
  also have "sint (30 :: 64 word) = 30" by simp
  also have "signed_take_bit 63 (sint x + 30) = sint x + 30"
  proof (intro signed_take_bit_int_eq_self)
    have "- (2 ^ 63) \<le> sint x" using sint_ge [of x] by simp
    then show "- (2 ^ 63) \<le> sint x + 30" by linarith
    show "sint x + 30 < 2 ^ 63" by (rule assms)
  qed
  finally show ?thesis .
qed

lemmas late_defs = wrapped1_def late_env_def late_clock_def late1_def

text \<open>
  Claim C5, as stated: when the processor returns the future-block error for the
  block at index \<open>i\<close>, a timestamp above the clock reading plus 30 seconds makes
  \<^verbatim>\<open>InsertChain\<close> return \<open>(i, error)\<close>, and any other timestamp parks the block. This fails
  at the ends of the \<^verbatim>\<open>int64\<close> range, in which both the timestamp and the bound are
  computed. A block whose header time is \<open>2^63\<close> is far ahead of the clock, but its time
  reads as a negative number: the block is parked and the call returns \<open>(0, nil)\<close>.
  And with the clock ten seconds from the end of the range the bound wraps around,
  so that a block only five seconds ahead of the clock is refused.
\<close>

theorem future_block_counterexample:
  "snd (Process future_env 0 (stamp (genesis_manager block0) wrapped1)) = Some BlockFutureErr
   \<and> sint (Now future_env 0) + 30 < uint (Time wrapped1)
   \<and> returned (InsertChain [] future_env (genesis_manager block0) [wrapped1])
       = Some (0, None, block0, 131072)
   \<and> future_hashes (InsertChain [] future_env (genesis_manager block0) [wrapped1]) = [2]
   \<and> snd (Process late_env 0 (stamp (genesis_manager block0) late1)) = Some BlockFutureErr
   \<and> uint (Time late1) \<le> sint (Now late_env 0) + 30
   \<and> returned (InsertChain [] late_env (genesis_manager block0) [late1])
       = Some (0, Some (FutureErr 9223372036854775803 9223372036854775828), block0, 131072)"
  by (simp add: cm_defs ex_defs late_defs maxFutureBlocks_def)


text \<open>
  Claim C5, amended: when the processor returns the future-block error for the block
  at index \<open>k\<close> (so the iteration has passed the interrupt check, the nonce check and
  the blacklist), the header time of the block is below \<open>2^63\<close> and the clock reading
  plus 30 is within the \<^verbatim>\<open>int64\<close> range: if the header time exceeds the clock reading
  plus 30, \<^verbatim>\<open>InsertChain\<close> returns the index \<open>k\<close> with the future-block error of that
  block, and the chain manager is as it was; otherwise the block is flagged as
  queued and pushed into the future-block cache, nothing else of the chain manager
  changes (the head in particular), and the loop goes on with the next block.
\<close>

theorem future_block:
  assumes "\<not> procInterrupt env k"
    and "awaitNonce k (nonceChecked s) (nonceDone s) = Verified ch rest"
    and "Hash (chainBlocks s ! k) \<notin> set bad"
    and "k < length (chainBlocks s)"
    and "snd (Process env k (stamp (cm s) (chainBlocks s ! k))) = Some BlockFutureErr"
    and "uint (Time (chainBlocks s ! k)) < 2 ^ 63"
    and "sint (Now env k) + 30 < 2 ^ 63"
  shows "if sint (Now env k) + 30 < uint (Time (chainBlocks s ! k))
         then \<exists>r. insertLoop bad env k (Suc n) s = Some r
                \<and> ret_index r = k
                \<and> ret_err r = Some (FutureErr (Time (chainBlocks s ! k)) (Now env k + 30))
                \<and> cm (ret_state r) = cm s
         else \<exists>s'. insertBlock bad env k s = Next s'
                \<and> insertLoop bad env k (Suc n) s = insertLoop bad env (Suc k) n s'
                \<and> queued (chainBlocks s' ! k)
                \<and> cache_Has (futureBlocks (cm s')) (Hash (chainBlocks s ! k))
                \<and> cm s' = (cm s)\<lparr>futureBlocks := futureBlocks (cm s')\<rparr>"
proof -
  let ?b = "chainBlocks s ! k"
  let ?b' = "stamp (cm s) ?b"
  let ?s2 = "setBlock (s\<lparr>nonceChecked := ch, nonceDone := rest\<rparr>) k ?b'"
  obtain logs where p: "Process env k ?b' = (logs, Some BlockFutureErr)"
    using assms(5) by (cases "Process env k ?b'") simp
  have eq: "insertBlock bad env k s = rejectBlock env ?s2 k ?b' BlockFutureErr"
    using assms(1,2,3) p by (simp add: insertBlock_def Let_def setBlock_def)
  have mx: "sint (Now env k + maxTimeFutureBlocks) = sint (Now env k) + 30"
    using sint_add_small [OF assms(7)] by (simp add: maxTimeFutureBlocks_def)
  have bt: "Block_Time ?b' = Time ?b" by (simp add: Block_Time_def to_int64_def)
  have st: "sint (Time ?b) = uint (Time ?b)" using assms(6) by (rule sint_small)
  show ?thesis
  proof (cases "sint (Now env k) + 30 < uint (Time ?b)")
    case True
    then have "insertBlock bad env k s
        = Fail k (FutureErr (Time ?b) (Now env k + 30)) ?s2"
      using eq mx bt st by (simp add: rejectBlock_def Let_def maxTimeFutureBlocks_def)
    then have "insertLoop bad env k (Suc n) s
        = Some (failed k (FutureErr (Time ?b) (Now env k + 30)) ?s2)"
      by simp
    moreover have "cm ?s2 = cm s" by (simp add: setBlock_def)
    ultimately show ?thesis using True by (simp add: failed_def)
  next
    case False
    then have nx: "insertBlock bad env k s = Next (parkBlock ?s2 k ?b')"
      using eq mx bt st by (simp add: rejectBlock_def Let_def)
    then have "insertLoop bad env k (Suc n) s = insertLoop bad env (Suc k) n (parkBlock ?s2 k ?b')"
      by simp
    moreover have "queued (chainBlocks (parkBlock ?s2 k ?b') ! k)"
      using assms(4) by (simp add: parkBlock_def setBlock_def Let_def)
    moreover have "cache_Has (futureBlocks (cm (parkBlock ?s2 k ?b'))) (Hash ?b)"
      by (simp add: parkBlock_def setBlock_def Let_def cache_Has_def cache_Push_def)
    moreover have "cm (parkBlock ?s2 k ?b')
        = (cm s)\<lparr>futureBlocks := futureBlocks (cm (parkBlock ?s2 k ?b'))\<rparr>"
      by (simp add: parkBlock_def setBlock_def Let_def)
    ultimately show ?thesis using False nx by auto
  qed
qed


theorem future_block_witness:
  "(\<exists>s'. insertBlock [] future_env 0
            (startState future_env (genesis_manager block0) [soon1, new2]) = Next s'
        \<and> insertLoop [] future_env 0 (Suc 1)
            (startState future_env (genesis_manager block0) [soon1, new2])
          = insertLoop [] future_env (Suc 0) 1 s'
        \<and> queued (chainBlocks s' ! 0)
        \<and> cache_Has (futureBlocks (cm s')) (Hash soon1)
        \<and> cm s' = (genesis_manager block0)\<lparr>futureBlocks := futureBlocks (cm s')\<rparr>)
   \<and> (\<exists>r. insertLoop [] future_env 0 (Suc 1)
            (startState future_env (genesis_manager block0) [far1, new2]) = Some r
        \<and> ret_index r = 0
        \<and> ret_err r = Some (FutureErr 1438270040 1438270030)
        \<and> cm (ret_state r) = genesis_manager block0)
   \<and> returned (InsertChain [] future_env (genesis_manager block0) [soon1, new2])
       = Some (0, None, block0, 131072)
   \<and> future_hashes (InsertChain [] future_env (genesis_manager block0) [soon1, new2])
       = [2, 3]
   \<and> returned (InsertChain [] future_env (genesis_manager block0) [far1, new2])
       = Some (0, Some (FutureErr 1438270040 1438270030), block0, 131072)"
proof -
  have a: "\<exists>s'. insertBlock [] future_env 0
            (startState future_env (genesis_manager block0) [soon1, new2]) = Next s'
        \<and> insertLoop [] future_env 0 (Suc 1)
            (startState future_env (genesis_manager block0) [soon1, new2])
          = insertLoop [] future_env (Suc 0) 1 s'
        \<and> queued (chainBlocks s' ! 0)
        \<and> cache_Has (futureBlocks (cm s')) (Hash soon1)
        \<and> cm s' = (genesis_manager block0)\<lparr>futureBlocks := futureBlocks (cm s')\<rparr>"
    using future_block [of future_env 0
        "startState future_env (genesis_manager block0) [soon1, new2]"
        "[True, False]" "[NonceResult 1 True]" "[]" 1]
    by (simp add: startState_def verifyNonces_def CalcTD_def GetBlock_def Block_Time_def
        to_int64_def ex_defs)
  have b: "\<exists>r. insertLoop [] future_env 0 (Suc 1)
            (startState future_env (genesis_manager block0) [far1, new2]) = Some r
        \<and> ret_index r = 0
        \<and> ret_err r = Some (FutureErr 1438270040 1438270030)
        \<and> cm (ret_state r) = genesis_manager block0"
    using future_block [of future_env 0
        "startState future_env (genesis_manager block0) [far1, new2]"
        "[True, False]" "[NonceResult 1 True]" "[]" 1]
    by (simp add: startState_def verifyNonces_def CalcTD_def GetBlock_def Block_Time_def
        to_int64_def ex_defs)
  have c: "returned (InsertChain [] future_env (genesis_manager block0) [soon1, new2])
       = Some (0, None, block0, 131072)"
    "future_hashes (InsertChain [] future_env (genesis_manager block0) [soon1, new2])
       = [2, 3]"
    "returned (InsertChain [] future_env (genesis_manager block0) [far1, new2])
       = Some (0, Some (FutureErr 1438270040 1438270030), block0, 131072)"
    by (simp_all add: cm_defs ex_defs maxFutureBlocks_def)
  from a b c show ?thesis by blast
qed

subsection \<open>A nonce that fails\<close>

lemma awaitNonce_Verified:
  "awaitNonce k ch rs = Verified ch' rest \<Longrightarrow> ch' ! k"
  by (induction k ch rs rule: awaitNonce.induct) (auto split: if_splits)

lemma awaitNonce_Invalid:
  "awaitNonce k ch rs = Invalid j \<Longrightarrow> NonceResult j False \<in> set rs"
  by (induction k ch rs rule: awaitNonce.induct) (auto split: if_splits)

lemma insertBlock_Invalid:
  assumes "\<not> procInterrupt env k"
    and "awaitNonce k (nonceChecked s) (nonceDone s) = Invalid j"
  shows "insertBlock bad env k s
         = Fail j (BlockNonceErr (Hash (chainBlocks s ! j)) (Number (chainBlocks s ! j))
                     (Nonce (chainBlocks s ! j))) s"
  using assms by (simp add: insertBlock_def Let_def)

lemma len3: "length xs = 3 \<Longrightarrow> \<exists>a b c. xs = [a, b, c]"
  by (auto simp: numeral_3_eq_3 length_Suc_conv)

lemma perm3:
  assumes "distinct xs" "set xs = {0, 1, 2::nat}"
  shows "xs = [0,1,2] \<or> xs = [0,2,1] \<or> xs = [1,0,2] \<or> xs = [1,2,0] \<or> xs = [2,0,1] \<or> xs = [2,1,0]"
proof -
  have "length xs = 3" using assms distinct_card [of xs] by simp
  then have "\<exists>a b c. xs = [a, b, c]" by (rule len3)
  then obtain a b c where xs: "xs = [a, b, c]" by (elim exE)
  have "a \<in> set xs" "b \<in> set xs" "c \<in> set xs" by (simp_all add: xs)
  then have sub: "a < 3" "b < 3" "c < 3" unfolding assms(2) by auto
  have d: "a \<noteq> b" "a \<noteq> c" "b \<noteq> c" using assms(1) unfolding xs by auto
  have ca: "a = 0 \<or> a = 1 \<or> a = 2" using sub(1) by arith
  have cb: "b = 0 \<or> b = 1 \<or> b = 2" using sub(2) by arith
  have cc: "c = 0 \<or> c = 1 \<or> c = 2" using sub(3) by arith
  from ca cb cc d show ?thesis unfolding xs by (elim disjE) simp_all
qed

text \<open>
  Claim C3, as stated: importing \<open>[B1, B2, B3]\<close>, where exactly the nonce of \<open>B2\<close> fails,
  returns \<open>(1, NonceError)\<close> with \<open>B1\<close> as current block, in whatever order the results
  arrive. The loop that waits for the result of block 0 returns as soon as it
  receives any invalid result. When the result of \<open>B2\<close> arrives first (order 1, 0, 2),
  the call returns \<open>(1, NonceError)\<close> before \<open>B1\<close> has been processed, and the current
  block is still the genesis block; in the order 0, 1, 2 it is \<open>B1\<close>.
\<close>

theorem nonce_failure_counterexample:
  "Verify reordered_env new1 \<and> \<not> Verify reordered_env new2 \<and> Verify reordered_env new3
   \<and> arrival reordered_env = [1, 0, 2]
   \<and> currentBlock (genesis_manager block0) = block0
   \<and> returned (InsertChain [] reordered_env (genesis_manager block0) [new1, new2, new3])
       = Some (1, Some (BlockNonceErr 3 2 0), block0, 131072)
   \<and> returned (InsertChain [] bad_nonce_env (genesis_manager block0) [new1, new2, new3])
       = Some (1, Some (BlockNonceErr 3 2 0), new1\<lparr>Td := 262145\<rparr>, 262145)"
  by (simp add: cm_defs ex_defs)

lemma awaitNonce_first_invalid:
  "\<not> ch ! k \<Longrightarrow> \<forall>r \<in> set pre. \<exists>i. r = NonceResult i True \<and> i \<noteq> k \<Longrightarrow>
   awaitNonce k ch (pre @ NonceResult j False # post) = Invalid j"
proof (induction pre arbitrary: ch)
  case Nil
  then show ?case by simp
next
  case (Cons r pre)
  then obtain i where r: "r = NonceResult i True" "i \<noteq> k" by auto
  have "\<not> ch[i := True] ! k" using Cons.prems(1) r(2) by simp
  then have "awaitNonce k (ch[i := True]) (pre @ NonceResult j False # post) = Invalid j"
    using Cons.prems(2) by (intro Cons.IH) auto
  then show ?case using Cons.prems(1) r by simp
qed

lemma awaitNonce_needs_own:
  "\<not> ch ! k \<Longrightarrow> NonceResult k True \<notin> set rs \<Longrightarrow>
   awaitNonce k ch rs = Blocked
   \<or> (\<exists>j. NonceResult j False \<in> set rs \<and> awaitNonce k ch rs = Invalid j)"
proof (induction rs arbitrary: ch)
  case Nil
  then show ?case by simp
next
  case (Cons r rs)
  obtain i v where r: "r = NonceResult i v" by (cases r)
  show ?case
  proof (cases v)
    case False
    then show ?thesis using Cons.prems r by auto
  next
    case True
    then have ne: "i \<noteq> k" using Cons.prems(2) r by auto
    then have "\<not> ch[i := True] ! k" using Cons.prems(1) by simp
    from Cons.IH [OF this] Cons.prems(2)
    have "awaitNonce k (ch[i := True]) rs = Blocked
        \<or> (\<exists>j. NonceResult j False \<in> set rs \<and> awaitNonce k (ch[i := True]) rs = Invalid j)"
      by simp
    then show ?thesis using Cons.prems(1) r True by auto
  qed
qed

lemma acceptBlock_checked:
  "acceptBlock s k b logs = Next s' \<Longrightarrow> nonceChecked s' = nonceChecked s"
  by (auto simp: acceptBlock_def Let_def storeBlock_def newHead_def
      split: if_splits option.splits sum.splits)

lemma rejectBlock_checked:
  "rejectBlock env s k b e = Next s' \<Longrightarrow> nonceChecked s' = nonceChecked s"
  by (auto simp: rejectBlock_def Let_def parkBlock_def setBlock_def split: if_splits)

lemma insertBlock_Next_checked:
  assumes "insertBlock bad env k s = Next s'"
  shows "nonceChecked s' ! k"
proof (cases "awaitNonce k (nonceChecked s) (nonceDone s)")
  case (Verified ch rest)
  then have c: "ch ! k" by (rule awaitNonce_Verified)
  let ?s1 = "s\<lparr>nonceChecked := ch, nonceDone := rest\<rparr>"
  let ?b = "stamp (cm ?s1) (chainBlocks ?s1 ! k)"
  obtain logs e where p: "Process env k ?b = (logs, e)" by (cases "Process env k ?b")
  have "nonceChecked s' = ch"
  proof (cases e)
    case None
    with assms Verified p have "acceptBlock (setBlock ?s1 k ?b) k ?b logs = Next s'"
      by (simp add: insertBlock_def Let_def split: if_splits)
    from acceptBlock_checked [OF this] show ?thesis by (simp add: setBlock_def)
  next
    case (Some err)
    with assms Verified p have "rejectBlock env (setBlock ?s1 k ?b) k ?b err = Next s'"
      by (simp add: insertBlock_def Let_def split: if_splits)
    from rejectBlock_checked [OF this] show ?thesis by (simp add: setBlock_def)
  qed
  with c show ?thesis by simp
next
  case (Invalid j)
  with assms show ?thesis by (simp add: insertBlock_def Let_def split: if_splits)
next
  case Blocked
  with assms show ?thesis by (simp add: insertBlock_def Let_def split: if_splits)
qed


lemma three_blocks:
  assumes "distinct (arrival env)" and "set (arrival env) = {0, 1, 2}"
    and "Verify env B1" and "\<not> Verify env B2" and "Verify env B3"
    and "\<not> procInterrupt env 0" and "\<not> procInterrupt env 1"
    and "Hash B1 \<notin> set bad"
    and "snd (Process env 0 (stamp c B1)) = None"
    and "ParentHash B1 = Hash (currentBlock c)"
    and "td c < CalcTD B1 (GetBlock c (ParentHash B1))"
  shows "\<exists>r. InsertChain bad env c [B1, B2, B3] = Some r
           \<and> ret_index r = 1
           \<and> ret_err r = Some (BlockNonceErr (Hash B2) (Number B2) (Nonce B2))
           \<and> currentBlock (cm (ret_state r))
               = (if arrives_before 0 1 (arrival env) then stamp c B1 else currentBlock c)"
proof -
  obtain logs where p: "Process env 0 (stamp c B1) = (logs, None)"
    using assms(9) by (cases "Process env 0 (stamp c B1)") simp
  note hyps = assms(3-8,10,11) p
  from perm3 [OF assms(1,2)] show ?thesis
  proof (elim disjE)
    assume "arrival env = [0,1,2]"
    with hyps show ?thesis by (simp add: cm_defs arrives_before_def)
  next
    assume "arrival env = [0,2,1]"
    with hyps show ?thesis by (simp add: cm_defs arrives_before_def)
  next
    assume "arrival env = [1,0,2]"
    with hyps show ?thesis by (simp add: cm_defs arrives_before_def)
  next
    assume "arrival env = [1,2,0]"
    with hyps show ?thesis by (simp add: cm_defs arrives_before_def)
  next
    assume "arrival env = [2,0,1]"
    with hyps show ?thesis by (simp add: cm_defs arrives_before_def)
  next
    assume "arrival env = [2,1,0]"
    with hyps show ?thesis by (simp add: cm_defs arrives_before_def)
  qed
qed


text \<open>
  Claim C3, amended, in four parts. While the loop waits for the result of the
  block at index \<open>k\<close>, the first invalid result it receives, for whichever index \<open>j\<close>,
  makes the call return \<open>j\<close> with the nonce error of the block at index \<open>j\<close>, and the
  state is as it was. As long as the valid result for index \<open>k\<close> is not among the
  results, the block at index \<open>k\<close> is not processed: the iteration blocks, or returns
  the nonce error of a block whose result is invalid. An iteration that goes on to
  the next block has received the result for its own block. Importing \<open>[B1, B2, B3]\<close>,
  where \<open>B1\<close> extends the head and is accepted and exactly the nonce of \<open>B2\<close> fails,
  returns \<open>(1, NonceError)\<close> in every order of arrival; the current block is \<open>B1\<close> when
  the result of \<open>B1\<close> arrives before that of \<open>B2\<close>, and the head is unchanged otherwise.
\<close>

theorem nonce_failure:
  "(\<not> procInterrupt env k \<and> \<not> nonceChecked s ! k
      \<and> nonceDone s = pre @ NonceResult j False # post
      \<and> (\<forall>r \<in> set pre. \<exists>i. r = NonceResult i True \<and> i \<noteq> k)
    \<longrightarrow> (\<exists>r. insertLoop bad env k (Suc n) s = Some r
           \<and> ret_index r = j
           \<and> ret_err r = Some (BlockNonceErr (Hash (chainBlocks s ! j))
                                 (Number (chainBlocks s ! j)) (Nonce (chainBlocks s ! j)))
           \<and> ret_state r = s))
   \<and> (\<not> procInterrupt env k \<and> \<not> nonceChecked s ! k
      \<and> NonceResult k True \<notin> set (nonceDone s)
    \<longrightarrow> insertBlock bad env k s = Hang
        \<or> (\<exists>i. NonceResult i False \<in> set (nonceDone s)
              \<and> insertBlock bad env k s
                  = Fail i (BlockNonceErr (Hash (chainBlocks s ! i))
                              (Number (chainBlocks s ! i)) (Nonce (chainBlocks s ! i))) s))
   \<and> (insertBlock bad env k s = Next s' \<longrightarrow> nonceChecked s' ! k)
   \<and> (distinct (arrival env) \<and> set (arrival env) = {0, 1, 2}
      \<and> Verify env B1 \<and> \<not> Verify env B2 \<and> Verify env B3
      \<and> \<not> procInterrupt env 0 \<and> \<not> procInterrupt env 1
      \<and> Hash B1 \<notin> set bad
      \<and> snd (Process env 0 (stamp c B1)) = None
      \<and> ParentHash B1 = Hash (currentBlock c)
      \<and> td c < CalcTD B1 (GetBlock c (ParentHash B1))
    \<longrightarrow> (\<exists>r. InsertChain bad env c [B1, B2, B3] = Some r
           \<and> ret_index r = 1
           \<and> ret_err r = Some (BlockNonceErr (Hash B2) (Number B2) (Nonce B2))
           \<and> currentBlock (cm (ret_state r))
               = (if arrives_before 0 1 (arrival env) then stamp c B1 else currentBlock c)))"
proof (intro conjI impI)
  assume a: "\<not> procInterrupt env k \<and> \<not> nonceChecked s ! k
      \<and> nonceDone s = pre @ NonceResult j False # post
      \<and> (\<forall>r \<in> set pre. \<exists>i. r = NonceResult i True \<and> i \<noteq> k)"
  then have "awaitNonce k (nonceChecked s) (nonceDone s) = Invalid j"
    using awaitNonce_first_invalid [of "nonceChecked s" k pre j post] by simp
  with a have "insertBlock bad env k s
         = Fail j (BlockNonceErr (Hash (chainBlocks s ! j)) (Number (chainBlocks s ! j))
                     (Nonce (chainBlocks s ! j))) s"
    by (intro insertBlock_Invalid) simp_all
  then show "\<exists>r. insertLoop bad env k (Suc n) s = Some r
           \<and> ret_index r = j
           \<and> ret_err r = Some (BlockNonceErr (Hash (chainBlocks s ! j))
                                 (Number (chainBlocks s ! j)) (Nonce (chainBlocks s ! j)))
           \<and> ret_state r = s"
    by (simp add: failed_def)
next
  assume a: "\<not> procInterrupt env k \<and> \<not> nonceChecked s ! k
      \<and> NonceResult k True \<notin> set (nonceDone s)"
  from awaitNonce_needs_own [of "nonceChecked s" k "nonceDone s"] a
  consider "awaitNonce k (nonceChecked s) (nonceDone s) = Blocked"
    | i where "NonceResult i False \<in> set (nonceDone s)"
        "awaitNonce k (nonceChecked s) (nonceDone s) = Invalid i"
    by blast
  then show "insertBlock bad env k s = Hang
        \<or> (\<exists>i. NonceResult i False \<in> set (nonceDone s)
              \<and> insertBlock bad env k s
                  = Fail i (BlockNonceErr (Hash (chainBlocks s ! i))
                              (Number (chainBlocks s ! i)) (Nonce (chainBlocks s ! i))) s)"
  proof cases
    case 1
    with a show ?thesis by (simp add: insertBlock_def)
  next
    case 2
    with a insertBlock_Invalid [of env k s i bad] show ?thesis by blast
  qed
next
  assume "insertBlock bad env k s = Next s'"
  then show "nonceChecked s' ! k" by (rule insertBlock_Next_checked)
next
  assume a: "distinct (arrival env) \<and> set (arrival env) = {0, 1, 2}
      \<and> Verify env B1 \<and> \<not> Verify env B2 \<and> Verify env B3
      \<and> \<not> procInterrupt env 0 \<and> \<not> procInterrupt env 1
      \<and> Hash B1 \<notin> set bad
      \<and> snd (Process env 0 (stamp c B1)) = None
      \<and> ParentHash B1 = Hash (currentBlock c)
      \<and> td c < CalcTD B1 (GetBlock c (ParentHash B1))"
  show "\<exists>r. InsertChain bad env c [B1, B2, B3] = Some r
           \<and> ret_index r = 1
           \<and> ret_err r = Some (BlockNonceErr (Hash B2) (Number B2) (Nonce B2))
           \<and> currentBlock (cm (ret_state r))
               = (if arrives_before 0 1 (arrival env) then stamp c B1 else currentBlock c)"
    using a three_blocks [of env B1 B2 B3 bad c] by blast
qed


theorem nonce_failure_witness:
  "(\<exists>r. InsertChain [] reordered_env (genesis_manager block0) [new1, new2, new3] = Some r
        \<and> ret_index r = 1
        \<and> ret_err r = Some (BlockNonceErr (Hash new2) (Number new2) (Nonce new2))
        \<and> ret_state r = startState reordered_env (genesis_manager block0) [new1, new2, new3])
   \<and> insertBlock [] (example_env\<lparr>arrival := [1, 2]\<rparr>) 0
        (startState (example_env\<lparr>arrival := [1, 2]\<rparr>) (genesis_manager block0) [new1, new2, new3])
       = Hang
   \<and> (\<exists>s'. insertBlock [] example_env 0
               (startState example_env (genesis_manager block0) [new1, new2, new3]) = Next s'
          \<and> nonceChecked s' ! 0)
   \<and> (\<exists>r. InsertChain [] reordered_env (genesis_manager block0) [new1, new2, new3] = Some r
        \<and> ret_index r = 1
        \<and> ret_err r = Some (BlockNonceErr (Hash new2) (Number new2) (Nonce new2))
        \<and> currentBlock (cm (ret_state r)) = block0)
   \<and> (\<exists>r. InsertChain [] bad_nonce_env (genesis_manager block0) [new1, new2, new3] = Some r
        \<and> ret_index r = 1
        \<and> ret_err r = Some (BlockNonceErr (Hash new2) (Number new2) (Nonce new2))
        \<and> currentBlock (cm (ret_state r)) = new1\<lparr>Td := 262145\<rparr>)"
proof -
  let ?s = "startState reordered_env (genesis_manager block0) [new1, new2, new3]"
  let ?e = "example_env\<lparr>arrival := [1, 2]\<rparr>"
  let ?t = "startState ?e (genesis_manager block0) [new1, new2, new3]"
  let ?u = "startState example_env (genesis_manager block0) [new1, new2, new3]"
  have prem: "\<not> procInterrupt reordered_env 0 \<and> \<not> nonceChecked ?s ! 0
      \<and> nonceDone ?s = [] @ NonceResult 1 False # [NonceResult 0 True, NonceResult 2 True]
      \<and> (\<forall>r \<in> set []. \<exists>i. r = NonceResult i True \<and> i \<noteq> 0)"
    by (simp add: startState_def verifyNonces_def ex_defs)
  have ic: "InsertChain [] reordered_env (genesis_manager block0) [new1, new2, new3]
      = insertLoop [] reordered_env 0 (Suc 2) ?s"
    by (simp add: InsertChain_def numeral_3_eq_3 eval_nat_numeral del: insertLoop.simps)
  have cb: "chainBlocks ?s ! 1 = new2" by (simp add: startState_def)
  from nonce_failure [of reordered_env 0 ?s "[]" 1 "[NonceResult 0 True, NonceResult 2 True]"
        "[]" 2] prem
  obtain r where r: "insertLoop [] reordered_env 0 (Suc 2) ?s = Some r" "ret_index r = 1"
      "ret_err r = Some (BlockNonceErr (Hash (chainBlocks ?s ! 1))
                                 (Number (chainBlocks ?s ! 1)) (Nonce (chainBlocks ?s ! 1)))"
      "ret_state r = ?s"
    by blast
  have a: "\<exists>r. InsertChain [] reordered_env (genesis_manager block0) [new1, new2, new3] = Some r
        \<and> ret_index r = 1
        \<and> ret_err r = Some (BlockNonceErr (Hash new2) (Number new2) (Nonce new2))
        \<and> ret_state r = ?s"
    unfolding ic using r unfolding cb by blast
  have b: "insertBlock [] ?e 0 ?t = Hang"
    using nonce_failure [of ?e 0 ?t]
    by (simp add: startState_def verifyNonces_def ex_defs)
  have "\<exists>s'. insertBlock [] example_env 0 ?u = Next s'"
    by (simp add: cm_defs ex_defs)
  then obtain s' where n: "insertBlock [] example_env 0 ?u = Next s'" ..
  have c: "\<exists>s'. insertBlock [] example_env 0 ?u = Next s' \<and> nonceChecked s' ! 0"
    using nonce_failure [of example_env 0 ?u _ _ _ "[]" _ s'] n by blast
  have d: "(\<exists>r. InsertChain [] reordered_env (genesis_manager block0) [new1, new2, new3] = Some r
        \<and> ret_index r = 1
        \<and> ret_err r = Some (BlockNonceErr (Hash new2) (Number new2) (Nonce new2))
        \<and> currentBlock (cm (ret_state r)) = block0)
   \<and> (\<exists>r. InsertChain [] bad_nonce_env (genesis_manager block0) [new1, new2, new3] = Some r
        \<and> ret_index r = 1
        \<and> ret_err r = Some (BlockNonceErr (Hash new2) (Number new2) (Nonce new2))
        \<and> currentBlock (cm (ret_state r)) = new1\<lparr>Td := 262145\<rparr>)"
    using nonce_failure [of reordered_env _ _ _ _ _ "[]" _ _ new1 new2 new3 "genesis_manager block0"]
      nonce_failure [of bad_nonce_env _ _ _ _ _ "[]" _ _ new1 new2 new3 "genesis_manager block0"]
    by (simp add: ex_defs arrives_before_def GetBlock_def CalcTD_def insert_commute)
  from a b c d show ?thesis by blast
qed

section \<open>The banned set of the downloader\<close>
















section \<open>Fetching hashes\<close>

subsection \<open>The cross check\<close>

lemma crossCheckStep_cases:
  "(length inserts < MinHashFetch \<longrightarrow> crossCheckStep s env inserts = Failed ErrStallingPeer s)
   \<and> (MinHashFetch \<le> length inserts \<longrightarrow>
        (\<exists>cross s'. rand_Intn (random env) (int (length inserts) - 1) = Some cross
            \<and> cross + 1 < length inserts
            \<and> crossCheckStep s env inserts = Continue s'
            \<and> map_of (checks (dl s')) (inserts ! cross)
                = Some \<lparr>check_expire = hash_now env + blockSoftTTL,
                         check_parent = inserts ! (cross + 1)\<rparr>))"
proof (intro conjI impI)
  assume "length inserts < MinHashFetch"
  then show "crossCheckStep s env inserts = Failed ErrStallingPeer s"
    by (simp add: crossCheckStep_def)
next
  assume big: "MinHashFetch \<le> length inserts"
  then have len: "2 \<le> length inserts" by (simp add: MinHashFetch_def)
  let ?n = "length inserts - 1"
  let ?cross = "random env mod ?n"
  have pos: "0 < ?n" using len by simp
  have r: "rand_Intn (random env) (int (length inserts) - 1) = Some ?cross"
    using len by (simp add: rand_Intn_def nat_diff_distrib' of_nat_diff)
  have lt: "?cross + 1 < length inserts" using mod_less_divisor [OF pos, of "random env"] by simp
  show "\<exists>cross s'. rand_Intn (random env) (int (length inserts) - 1) = Some cross
            \<and> cross + 1 < length inserts
            \<and> crossCheckStep s env inserts = Continue s'
            \<and> map_of (checks (dl s')) (inserts ! cross)
                = Some \<lparr>check_expire = hash_now env + blockSoftTTL,
                         check_parent = inserts ! (cross + 1)\<rparr>"
    using r lt big
    by (simp add: crossCheckStep_def Let_def getHashes_def checks_put_def)
qed

lemma crossCheckStep_no_panic: "crossCheckStep s env inserts \<noteq> Panic"
  using crossCheckStep_cases [of inserts s env]
  by (cases "length inserts < MinHashFetch") auto

lemma hashPackStep_no_panic: "hashPackStep bad s pid hashes env \<noteq> Panic"
  by (auto simp: hashPackStep_def Let_def crossCheckStep_no_panic
      split: prod.splits option.splits if_splits)

lemma fetchStep_no_panic: "fetchStep bad s ev \<noteq> Panic"
  by (cases ev)
    (auto simp: hashPackStep_no_panic blockPackStep_def crossTickStep_def timeoutStep_def Let_def
      split: option.splits if_splits)

lemma fetchLoop_no_panic: "fetchLoop bad s evs \<noteq> Some Panicked"
proof (induction evs arbitrary: s)
  case Nil
  show ?case by simp
next
  case (Cons ev evs)
  then show ?case
    using fetchStep_no_panic [of bad s ev]
    by (cases "fetchStep bad s ev") simp_all
qed


text \<open>
  Claim C10: in \<^verbatim>\<open>fetchHashes\<close> a cross check is registered only when the number of
  newly inserted hashes has passed the stalling check, \<open>MinHashFetch = 512\<close>; the bound
  given to \<^verbatim>\<open>rand.Intn\<close> is then positive, the index drawn and its successor are
  within the inserted hashes, and the check registered is that pair. With fewer
  hashes the fetch ends with the stalling error before anything is drawn. No step of
  the loop, and no run of \<^verbatim>\<open>fetchHashes\<close>, panics.
\<close>

theorem cross_check_in_range:
  "(length inserts < MinHashFetch \<longrightarrow> crossCheckStep s env inserts = Failed ErrStallingPeer s)
   \<and> (MinHashFetch \<le> length inserts \<longrightarrow>
        (\<exists>cross s'. rand_Intn (random env) (int (length inserts) - 1) = Some cross
            \<and> cross + 1 < length inserts
            \<and> crossCheckStep s env inserts = Continue s'
            \<and> map_of (checks (dl s')) (inserts ! cross)
                = Some \<lparr>check_expire = hash_now env + blockSoftTTL,
                         check_parent = inserts ! (cross + 1)\<rparr>))
   \<and> fetchStep bad s1 ev \<noteq> Panic
   \<and> fetchHashes bad d p h evs \<noteq> Some Panicked"
  using crossCheckStep_cases [of inserts s env] fetchStep_no_panic [of bad s1 ev]
    fetchLoop_no_panic [of bad "fetchStart d p h" evs]
  by (simp add: fetchHashes_def)






lemma many_hashes_length: "length many_hashes = 512"
  by (simp add: many_hashes_def del: upt_rec_numeral)








theorem cross_check_in_range_witness:
  "(\<exists>cross s'. rand_Intn (random example_hash_env) (int (length many_hashes) - 1) = Some cross
        \<and> cross + 1 < length many_hashes
        \<and> crossCheckStep (fetchStart example_downloader peerA 1000) example_hash_env many_hashes
            = Continue s'
        \<and> map_of (checks (dl s')) (many_hashes ! cross)
            = Some \<lparr>check_expire = hash_now example_hash_env + blockSoftTTL,
                     check_parent = many_hashes ! (cross + 1)\<rparr>)
   \<and> crossCheckStep (fetchStart example_downloader peerA 1000) example_hash_env [1, 2]
       = Failed ErrStallingPeer (fetchStart example_downloader peerA 1000)
   \<and> fetchStep [] (fetchStart example_downloader peerA 1000)
       (HashPack ''A'' many_hashes example_hash_env) \<noteq> Panic"
  using cross_check_in_range [of many_hashes "fetchStart example_downloader peerA 1000"
      example_hash_env "[]" "fetchStart example_downloader peerA 1000"
      "HashPack ''A'' many_hashes example_hash_env" example_downloader peerA 1000 "[]"]
    cross_check_in_range [of "[1, 2]" "fetchStart example_downloader peerA 1000"
      example_hash_env "[]" "fetchStart example_downloader peerA 1000"
      "HashPack ''A'' many_hashes example_hash_env" example_downloader peerA 1000 "[]"]
  by (simp add: many_hashes_length MinHashFetch_def)

subsection \<open>The timeout\<close>




















end
